theory Spec2Isabelle
  imports Main
begin

unbundle bit_operations_syntax

section \<open>INDIGO raw transport primitives (indigo\_io.c)\<close>

text \<open>
  A shallow embedding of \<^verbatim>\<open>indigo_libs/indigo_io.c\<close>, in the build for Linux
  (\<^verbatim>\<open>INDIGO_LINUX\<close>; the \<^verbatim>\<open>INDIGO_WINDOWS\<close> branches are not modelled).
  The functions of the file talk to the operating system. Every system call is modelled
  by the value the operating system returns for it: a function takes the results of the
  calls it will make and returns its own result together with the calls it has made.
  C integers are HOL integers (a parameter \<^verbatim>\<open>length\<close> is \<open>length'\<close> here); a cast to
  \<^verbatim>\<open>int\<close> is written out where the source has one (\<^verbatim>\<open>long\<close> is 64 bits wide on the
  x64 and arm64 targets of the Makefile).
  Reading or writing outside an array is a value of type \<open>fault\<close>.
\<close>

subsection \<open>C strings\<close>

text \<open>
  A C string is modelled by its content, a \<^typ>\<open>string\<close> with the terminating NUL left
  implicit: reading at or after the end of the list yields NUL.
\<close>

abbreviation NUL :: char where "NUL \<equiv> CHR 0x00"
abbreviation LF :: char where "LF \<equiv> CHR 0x0A"
abbreviation CR :: char where "CR \<equiv> CHR 0x0D"

definition char_at :: "string \<Rightarrow> char" where
  "char_at s = (case s of [] \<Rightarrow> NUL | c # _ \<Rightarrow> c)"

text \<open>\<^verbatim>\<open>strncmp(s1, s2, n)\<close>: compares at most \<open>n\<close> characters and stops after a NUL.\<close>

fun strncmp :: "string \<Rightarrow> string \<Rightarrow> nat \<Rightarrow> int" where
  "strncmp s1 s2 0 = 0"
| "strncmp s1 s2 (Suc n) =
     (if char_at s1 \<noteq> char_at s2
      then int (of_char (char_at s1)) - int (of_char (char_at s2))
      else if char_at s1 = NUL then 0
      else strncmp (tl s1) (tl s2) n)"

text \<open>\<^verbatim>\<open>strchr(s, c)\<close>: the index of the first \<open>c\<close> in \<open>s\<close>, \<open>None\<close> for a NULL result.\<close>

fun strchr :: "string \<Rightarrow> char \<Rightarrow> nat option" where
  "strchr [] c = None"
| "strchr (x # xs) c = (if x = c then Some 0 else map_option Suc (strchr xs c))"

datatype fault =
    Table_overrun         \<comment> \<open>\<^verbatim>\<open>brp\<close> stepped past the last entry of \<^verbatim>\<open>br\<close>\<close>
  | Unterminated_copy     \<comment> \<open>\<^verbatim>\<open>strncpy\<close> filled \<^verbatim>\<open>copy[32]\<close> without a NUL\<close>
  | Buffer_overflow int   \<comment> \<open>a store to \<^verbatim>\<open>buffer[i]\<close> with \<open>i\<close> outside the buffer\<close>

datatype errno = EINVAL | ECONNRESET

subsection \<open>The baud rate table\<close>

text \<open>
  The speed constants of \<^verbatim>\<open><termios.h>\<close> are not part of the repository; they are
  given their Linux values (asm-generic/termbits.h).
\<close>

definition B50 :: int where "B50 = 1"
definition B75 :: int where "B75 = 2"
definition B110 :: int where "B110 = 3"
definition B134 :: int where "B134 = 4"
definition B150 :: int where "B150 = 5"
definition B200 :: int where "B200 = 6"
definition B300 :: int where "B300 = 7"
definition B600 :: int where "B600 = 8"
definition B1200 :: int where "B1200 = 9"
definition B1800 :: int where "B1800 = 10"
definition B2400 :: int where "B2400 = 11"
definition B4800 :: int where "B4800 = 12"
definition B9600 :: int where "B9600 = 13"
definition B19200 :: int where "B19200 = 14"
definition B38400 :: int where "B38400 = 15"
definition B57600 :: int where "B57600 = 4097"
definition B115200 :: int where "B115200 = 4098"
definition B230400 :: int where "B230400 = 4099"
definition B460800 :: int where "B460800 = 4100"
definition B500000 :: int where "B500000 = 4101"
definition B576000 :: int where "B576000 = 4102"
definition B921600 :: int where "B921600 = 4103"
definition B1000000 :: int where "B1000000 = 4104"
definition B1152000 :: int where "B1152000 = 4105"
definition B1500000 :: int where "B1500000 = 4106"
definition B2000000 :: int where "B2000000 = 4107"
definition B2500000 :: int where "B2500000 = 4108"
definition B3000000 :: int where "B3000000 = 4109"
definition B3500000 :: int where "B3500000 = 4110"
definition B4000000 :: int where "B4000000 = 4111"

text \<open>
  \<^verbatim>\<open>typedef struct { int value; size_t len; char *str; } sbaud_rate;\<close>
  (the field \<^verbatim>\<open>value\<close> is \<open>value'\<close> here).
  \<^verbatim>\<open>#define BR(str,val) { val, sizeof(str), str }\<close>: \<^verbatim>\<open>sizeof\<close> of a string literal
  counts its terminating NUL.
\<close>

record sbaud_rate =
  value' :: int
  len :: nat
  str :: string

definition BR :: "string \<Rightarrow> int \<Rightarrow> sbaud_rate" where
  "BR s v = \<lparr> value' = v, len = Suc (length s), str = s \<rparr>"

definition br :: "sbaud_rate list" where
  "br = [
    BR ''50'' B50,
    BR ''75'' B75,
    BR ''110'' B110,
    BR ''134'' B134,
    BR ''150'' B150,
    BR ''200'' B200,
    BR ''300'' B300,
    BR ''600'' B600,
    BR ''1200'' B1200,
    BR ''1800'' B1800,
    BR ''2400'' B2400,
    BR ''4800'' B4800,
    BR ''9600'' B9600,
    BR ''19200'' B19200,
    BR ''38400'' B38400,
    BR ''57600'' B57600,
    BR ''115200'' B115200,
    BR ''230400'' B230400,
    BR ''460800'' B460800,
    BR ''500000'' B500000,
    BR ''576000'' B576000,
    BR ''921600'' B921600,
    BR ''1000000'' B1000000,
    BR ''1152000'' B1152000,
    BR ''1500000'' B1500000,
    BR ''2000000'' B2000000,
    BR ''2500000'' B2500000,
    BR ''3000000'' B3000000,
    BR ''3500000'' B3500000,
    BR ''4000000'' B4000000,
    BR '''' 0
  ]"

text \<open>
  \<^verbatim>\<open>map_str_baudrate\<close>: the loop over the table, \<open>brp\<close> being the entries from the
  current one on. The comparison comes first, the test for the sentinel second.
\<close>

fun map_str_baudrate_loop :: "sbaud_rate list \<Rightarrow> string \<Rightarrow> fault + int" where
  "map_str_baudrate_loop [] baudrate = Inl Table_overrun"
| "map_str_baudrate_loop (e # brp) baudrate =
     (if strncmp (str e) baudrate (len e) \<noteq> 0
      then (if char_at (str e) = NUL then Inr (- 1) else map_str_baudrate_loop brp baudrate)
      else Inr (value' e))"

definition map_str_baudrate :: "string \<Rightarrow> fault + int" where
  "map_str_baudrate baudrate = map_str_baudrate_loop br baudrate"

subsection \<open>Serial line configuration\<close>

text \<open>
  \<^verbatim>\<open>struct termios\<close> and the flag constants of \<^verbatim>\<open><termios.h>\<close>, with their Linux values.
  \<^verbatim>\<open>cfsetispeed\<close> and \<^verbatim>\<open>cfsetospeed\<close> store the speed in the structure.
\<close>

record termios =
  c_iflag :: int
  c_oflag :: int
  c_cflag :: int
  c_lflag :: int
  c_cc :: "int list"
  c_ispeed :: int
  c_ospeed :: int

definition CS5 :: int where "CS5 = 0"
definition CS6 :: int where "CS6 = 16"
definition CS7 :: int where "CS7 = 32"
definition CS8 :: int where "CS8 = 48"
definition CSTOPB :: int where "CSTOPB = 64"
definition CREAD :: int where "CREAD = 128"
definition PARENB :: int where "PARENB = 256"
definition PARODD :: int where "PARODD = 512"
definition CLOCAL :: int where "CLOCAL = 2048"
definition IGNPAR :: int where "IGNPAR = 4"
definition INPCK :: int where "INPCK = 16"
definition VTIME :: nat where "VTIME = 5"
definition VMIN :: nat where "VMIN = 6"
definition NCCS :: nat where "NCCS = 32"

text \<open>\<^verbatim>\<open>memset(options, 0, sizeof(*options))\<close>\<close>

definition zero_termios :: termios where
  "zero_termios = \<lparr> c_iflag = 0, c_oflag = 0, c_cflag = 0, c_lflag = 0,
     c_cc = replicate NCCS 0, c_ispeed = 0, c_ospeed = 0 \<rparr>"

definition cfsetispeed :: "termios \<Rightarrow> int \<Rightarrow> termios" where
  "cfsetispeed options speed = options\<lparr> c_ispeed := speed \<rparr>"

definition cfsetospeed :: "termios \<Rightarrow> int \<Rightarrow> termios" where
  "cfsetospeed options speed = options\<lparr> c_ospeed := speed \<rparr>"

text \<open>
  The result of \<^verbatim>\<open>configure_tty_options\<close>: it returns 0 and has filled in
  \<^verbatim>\<open>*options\<close>, or it returns -1 and has set \<^verbatim>\<open>errno\<close>, or its behaviour is undefined.
\<close>

datatype tty_config =
    Configured termios
  | Rejected errno
  | Undefined fault

text \<open>The three \<^verbatim>\<open>switch\<close> statements on \<^verbatim>\<open>mode[0]\<close>, \<^verbatim>\<open>mode[1]\<close> and \<^verbatim>\<open>mode[2]\<close>;
  \<open>None\<close> is the \<^verbatim>\<open>default\<close> label.\<close>

definition switch_cbits :: "char \<Rightarrow> int option" where
  "switch_cbits c =
     (if c = CHR ''8'' then Some CS8
      else if c = CHR ''7'' then Some CS7
      else if c = CHR ''6'' then Some CS6
      else if c = CHR ''5'' then Some CS5
      else None)"

definition switch_parity :: "char \<Rightarrow> (int \<times> int) option" where
  "switch_parity c =
     (if c = CHR ''N'' \<or> c = CHR ''n'' then Some (0, IGNPAR)
      else if c = CHR ''E'' \<or> c = CHR ''e'' then Some (PARENB, INPCK)
      else if c = CHR ''O'' \<or> c = CHR ''o'' then Some (PARENB OR PARODD, INPCK)
      else None)"

definition switch_bstop :: "char \<Rightarrow> int option" where
  "switch_bstop c =
     (if c = CHR ''1'' then Some 0
      else if c = CHR ''2'' then Some CSTOPB
      else None)"

definition fill_options :: "int \<Rightarrow> int \<Rightarrow> int \<Rightarrow> int \<Rightarrow> int \<Rightarrow> termios" where
  "fill_options cbits cpar ipar bstop baudr =
     cfsetospeed (cfsetispeed
       (zero_termios\<lparr> c_cflag := cbits OR cpar OR bstop OR CLOCAL OR CREAD,
                      c_iflag := ipar,
                      c_oflag := 0,
                      c_lflag := 0,
                      c_cc := (c_cc zero_termios)[VMIN := 0, VTIME := 50] \<rparr>)
       baudr) baudr"

text \<open>
  \<^verbatim>\<open>configure_tty_options(options, baudrate)\<close>. \<^verbatim>\<open>strncpy(copy, baudrate, 32)\<close> leaves
  \<^verbatim>\<open>copy\<close> without a NUL when \<^verbatim>\<open>baudrate\<close> has 32 characters or more. \<open>copy\<close> below is
  the string before the first \<^verbatim>\<open>'-'\<close> (the source writes a NUL over it), \<open>mode\<close> the one
  after it.
\<close>

definition configure_tty_options :: "string \<Rightarrow> tty_config" where
  "configure_tty_options baudrate =
     (if 32 \<le> length baudrate then Undefined Unterminated_copy
      else (case strchr baudrate CHR ''-'' of
        None \<Rightarrow> Rejected EINVAL
      | Some i \<Rightarrow>
          (let copy = take i baudrate; mode = drop (Suc i) baudrate in
           (case map_str_baudrate copy of
              Inl f \<Rightarrow> Undefined f
            | Inr baudr \<Rightarrow>
                (if baudr = - 1 then Rejected EINVAL
                 else if length mode \<noteq> 3 then Rejected EINVAL
                 else (case switch_cbits (mode ! 0) of
                    None \<Rightarrow> Rejected EINVAL
                  | Some cbits \<Rightarrow>
                     (case switch_parity (mode ! 1) of
                        None \<Rightarrow> Rejected EINVAL
                      | Some (cpar, ipar) \<Rightarrow>
                         (case switch_bstop (mode ! 2) of
                            None \<Rightarrow> Rejected EINVAL
                          | Some bstop \<Rightarrow>
                              Configured (fill_options cbits cpar ipar bstop baudr)))))))))"

text \<open>
  The form of a configuration string: a baud string of the table, a dash, and the three
  characters of the mode. The empty string of the sentinel is a string of the table.
\<close>

definition config_form :: "string \<Rightarrow> bool" where
  "config_form cfg \<longleftrightarrow>
     (\<exists>baud d p s. cfg = baud @ [CHR ''-'', d, p, s]
        \<and> baud \<in> str ` set br
        \<and> d \<in> {CHR ''5'', CHR ''6'', CHR ''7'', CHR ''8''}
        \<and> p \<in> {CHR ''N'', CHR ''n'', CHR ''E'', CHR ''e'', CHR ''O'', CHR ''o''}
        \<and> s \<in> {CHR ''1'', CHR ''2''})"

subsection \<open>System calls\<close>

datatype open_flag = O_RDWR | O_NOCTTY | O_SYNC
datatype sock_type = SOCK_STREAM | SOCK_DGRAM
datatype sock_option = SO_RCVTIMEO | SO_SNDTIMEO

record timeval =
  tv_sec :: int
  tv_usec :: int

type_synonym in_addr = nat

text \<open>The calls a function makes, in the order it makes them, with their arguments.\<close>

datatype syscall =
    Sys_open string "open_flag list"
  | Sys_tcgetattr int
  | Sys_tcsetattr int termios
  | Sys_close int
  | Sys_gethostbyname string
  | Sys_socket sock_type
  | Sys_connect int in_addr int
  | Sys_setsockopt int sock_option timeval

text \<open>
  What a function of the library hands back: its return value, the value it has itself
  assigned to \<^verbatim>\<open>errno\<close> (if any), and the system calls it made.
\<close>

record io_result =
  ret :: int
  errno_set :: "errno option"
  calls :: "syscall list"

subsection \<open>Opening a serial line\<close>

text \<open>The results of the calls \<^verbatim>\<open>open_tty\<close> can make.\<close>

record tty_os =
  open_result :: int
  tcgetattr_result :: int
  tcsetattr_result :: int

text \<open>\<^verbatim>\<open>open_tty(tty_name, options, old_options)\<close>; \<open>old_options\<close> tells whether the
  pointer is not NULL.\<close>

definition open_tty :: "tty_os \<Rightarrow> string \<Rightarrow> termios \<Rightarrow> bool \<Rightarrow> io_result" where
  "open_tty os tty_name options old_options =
     (let tty_fd = open_result os;
          c1 = [Sys_open tty_name [O_RDWR, O_NOCTTY, O_SYNC]] in
      if tty_fd = - 1 then \<lparr> ret = - 1, errno_set = None, calls = c1 \<rparr>
      else if old_options \<and> tcgetattr_result os = - 1
        then \<lparr> ret = - 1, errno_set = None,
               calls = c1 @ [Sys_tcgetattr tty_fd, Sys_close tty_fd] \<rparr>
      else let c2 = c1 @ (if old_options then [Sys_tcgetattr tty_fd] else []) in
        if tcsetattr_result os = - 1
        then \<lparr> ret = - 1, errno_set = None,
               calls = c2 @ [Sys_tcsetattr tty_fd options, Sys_close tty_fd] \<rparr>
        else \<lparr> ret = tty_fd, errno_set = None,
               calls = c2 @ [Sys_tcsetattr tty_fd options] \<rparr>)"

text \<open>\<^verbatim>\<open>indigo_open_serial_with_config(dev_file, baudconfig)\<close>\<close>

definition indigo_open_serial_with_config :: "tty_os \<Rightarrow> string \<Rightarrow> string \<Rightarrow> fault + io_result" where
  "indigo_open_serial_with_config os dev_file baudconfig =
     (case configure_tty_options baudconfig of
        Undefined f \<Rightarrow> Inl f
      | Rejected e \<Rightarrow> Inr \<lparr> ret = - 1, errno_set = Some e, calls = [] \<rparr>
      | Configured to \<Rightarrow> Inr (open_tty os dev_file to False))"

text \<open>
  \<^verbatim>\<open>snprintf(baud_str, sizeof(baud_str), "%d-8N1", speed)\<close>: the decimal digits of
  \<open>speed\<close>, then \<^verbatim>\<open>-8N1\<close>, cut to what fits an array of \<open>n\<close> characters with its NUL.
\<close>

definition digit_char :: "nat \<Rightarrow> char" where
  "digit_char d = ''0123456789'' ! d"

fun dec_nat :: "nat \<Rightarrow> string" where
  "dec_nat n = (if n < 10 then [digit_char n] else dec_nat (n div 10) @ [digit_char (n mod 10)])"

declare dec_nat.simps [simp del]

definition dec_int :: "int \<Rightarrow> string" where
  "dec_int i = (if i < 0 then CHR ''-'' # dec_nat (nat (- i)) else dec_nat (nat i))"

definition snprintf_d_8N1 :: "nat \<Rightarrow> int \<Rightarrow> string" where
  "snprintf_d_8N1 n speed = take (n - 1) (dec_int speed @ ''-8N1'')"

text \<open>\<^verbatim>\<open>indigo_open_serial_with_speed(dev_file, speed)\<close> and \<^verbatim>\<open>indigo_open_serial(dev_file)\<close>\<close>

definition indigo_open_serial_with_speed :: "tty_os \<Rightarrow> string \<Rightarrow> int \<Rightarrow> fault + io_result" where
  "indigo_open_serial_with_speed os dev_file speed =
     indigo_open_serial_with_config os dev_file (snprintf_d_8N1 32 speed)"

definition indigo_open_serial :: "tty_os \<Rightarrow> string \<Rightarrow> fault + io_result" where
  "indigo_open_serial os dev_file = indigo_open_serial_with_speed os dev_file 9600"

subsection \<open>Opening a socket\<close>

text \<open>
  The results of the calls \<^verbatim>\<open>indigo_open_tcp\<close> and \<^verbatim>\<open>indigo_open_udp\<close> can make:
  \<^verbatim>\<open>gethostbyname\<close> (\<open>None\<close> for NULL, otherwise the address \<^verbatim>\<open>he->h_addr\<close>),
  \<^verbatim>\<open>socket\<close>, \<^verbatim>\<open>connect\<close>, and the two \<^verbatim>\<open>setsockopt\<close>.
\<close>

record net_os =
  gethostbyname_result :: "in_addr option"
  socket_result :: int
  connect_result :: int
  setsockopt_rcvtimeo_result :: int
  setsockopt_sndtimeo_result :: int

text \<open>\<^verbatim>\<open>htons(port)\<close>: the port as an unsigned 16-bit number.\<close>

definition htons :: "int \<Rightarrow> int" where
  "htons port = port mod 65536"

text \<open>\<^verbatim>\<open>indigo_open_tcp(host, port)\<close>\<close>

definition indigo_open_tcp :: "net_os \<Rightarrow> string \<Rightarrow> int \<Rightarrow> io_result" where
  "indigo_open_tcp os host port =
     (let timeout = \<lparr> tv_sec = 5, tv_usec = 0 \<rparr>;
          c1 = [Sys_gethostbyname host] in
      case gethostbyname_result os of
        None \<Rightarrow> \<lparr> ret = - 1, errno_set = None, calls = c1 \<rparr>
      | Some h_addr \<Rightarrow>
         (let sock = socket_result os;
              c2 = c1 @ [Sys_socket SOCK_STREAM] in
          if sock = - 1 then \<lparr> ret = - 1, errno_set = None, calls = c2 \<rparr>
          else
           (let c3 = c2 @ [Sys_connect sock h_addr (htons port)] in
            if connect_result os < 0 then \<lparr> ret = - 1, errno_set = None, calls = c3 \<rparr>
            else
             (let c4 = c3 @ [Sys_setsockopt sock SO_RCVTIMEO timeout] in
              if setsockopt_rcvtimeo_result os < 0
              then \<lparr> ret = - 1, errno_set = None, calls = c4 @ [Sys_close sock] \<rparr>
              else
               (let c5 = c4 @ [Sys_setsockopt sock SO_SNDTIMEO timeout] in
                if setsockopt_sndtimeo_result os < 0
                then \<lparr> ret = - 1, errno_set = None, calls = c5 @ [Sys_close sock] \<rparr>
                else \<lparr> ret = sock, errno_set = None, calls = c5 \<rparr>)))))"

text \<open>\<^verbatim>\<open>indigo_open_udp(host, port)\<close>\<close>

definition indigo_open_udp :: "net_os \<Rightarrow> string \<Rightarrow> int \<Rightarrow> io_result" where
  "indigo_open_udp os host port =
     (let timeout = \<lparr> tv_sec = 5, tv_usec = 0 \<rparr>;
          c1 = [Sys_gethostbyname host] in
      case gethostbyname_result os of
        None \<Rightarrow> \<lparr> ret = - 1, errno_set = None, calls = c1 \<rparr>
      | Some h_addr \<Rightarrow>
         (let sock = socket_result os;
              c2 = c1 @ [Sys_socket SOCK_DGRAM] in
          if sock = - 1 then \<lparr> ret = - 1, errno_set = None, calls = c2 \<rparr>
          else
           (let c3 = c2 @ [Sys_connect sock h_addr (htons port)] in
            if connect_result os < 0 then \<lparr> ret = - 1, errno_set = None, calls = c3 \<rparr>
            else
             (let c4 = c3 @ [Sys_setsockopt sock SO_RCVTIMEO timeout] in
              if setsockopt_rcvtimeo_result os < 0
              then \<lparr> ret = - 1, errno_set = None, calls = c4 @ [Sys_close sock] \<rparr>
              else
               (let c5 = c4 @ [Sys_setsockopt sock SO_SNDTIMEO timeout] in
                if setsockopt_sndtimeo_result os < 0
                then \<lparr> ret = - 1, errno_set = None, calls = c5 @ [Sys_close sock] \<rparr>
                else \<lparr> ret = sock, errno_set = None, calls = c5 \<rparr>)))))"

text \<open>
  How a call to open a socket can end, read off the calls made. A failure returns -1;
  after a failed \<^verbatim>\<open>setsockopt\<close> the socket has been closed. A success returns the
  socket, connected to the host, with a receive and a send timeout of 5 s and 0 \<mu>s and
  no other value ever given to \<^verbatim>\<open>setsockopt\<close>, and not closed.
\<close>

definition open_failed :: "io_result \<Rightarrow> bool" where
  "open_failed r \<longleftrightarrow> ret r = - 1"

definition socket_closed :: "int \<Rightarrow> io_result \<Rightarrow> bool" where
  "socket_closed sock r \<longleftrightarrow> calls r \<noteq> [] \<and> last (calls r) = Sys_close sock"

definition open_succeeded :: "sock_type \<Rightarrow> int \<Rightarrow> in_addr \<Rightarrow> int \<Rightarrow> io_result \<Rightarrow> bool" where
  "open_succeeded ty sock addr port r \<longleftrightarrow>
     ret r = sock
     \<and> Sys_socket ty \<in> set (calls r)
     \<and> Sys_connect sock addr (htons port) \<in> set (calls r)
     \<and> Sys_setsockopt sock SO_RCVTIMEO \<lparr> tv_sec = 5, tv_usec = 0 \<rparr> \<in> set (calls r)
     \<and> Sys_setsockopt sock SO_SNDTIMEO \<lparr> tv_sec = 5, tv_usec = 0 \<rparr> \<in> set (calls r)
     \<and> Sys_close sock \<notin> set (calls r)
     \<and> list_all (\<lambda>c. case c of
           Sys_setsockopt s opt tv \<Rightarrow> s = sock \<and> tv = \<lparr> tv_sec = 5, tv_usec = 0 \<rparr>
         | _ \<Rightarrow> True) (calls r)"

subsection \<open>Reading\<close>

text \<open>
  \<^verbatim>\<open>read(handle, ...)\<close> and \<^verbatim>\<open>write(handle, ...)\<close> are modelled by a script: the list of
  the values the successive calls on the handle return. A run that asks for more results
  than the script holds has not returned by the end of the script: its value is \<open>None\<close>.

  \<open>to_int\<close> is the cast \<^verbatim>\<open>(int)\<close> of a \<^verbatim>\<open>long\<close>: it keeps the low 32 bits.
\<close>

definition INT_MAX :: int where
  "INT_MAX = 2147483647"

definition to_int :: "int \<Rightarrow> int" where
  "to_int x = (x + 2147483648) mod 4294967296 - 2147483648"





subsection \<open>Reading a line\<close>

text \<open>
  \<^verbatim>\<open>indigo_read_line(handle, buffer, length)\<close>. An element \<open>(bytes_read, c)\<close> of the script
  is the result of one \<^verbatim>\<open>read(handle, &c, 1)\<close> and the byte it has put into \<open>c\<close>. The
  caller's buffer is the list of its bytes, as long as its capacity; a store outside it
  is a fault. The exit state keeps the buffer and the part of the script left unread.
\<close>

definition store :: "string \<Rightarrow> int \<Rightarrow> char \<Rightarrow> fault + string" where
  "store buffer i c =
     (if 0 \<le> i \<and> i < int (length buffer) then Inr (buffer[nat i := c])
      else Inl (Buffer_overflow i))"

record read_line_exit =
  rl_ret :: int
  rl_errno :: "errno option"
  rl_buffer :: string
  rl_unread :: "(int \<times> char) list"

text \<open>After the loop: \<^verbatim>\<open>buffer[total_bytes] = '\0'; return (int)total_bytes;\<close>\<close>

definition read_line_end ::
  "(int \<times> char) list \<Rightarrow> string \<Rightarrow> int \<Rightarrow> fault + read_line_exit" where
  "read_line_end rs buffer total_bytes =
     (case store buffer total_bytes NUL of
        Inl f \<Rightarrow> Inl f
      | Inr b \<Rightarrow> Inr \<lparr> rl_ret = to_int total_bytes, rl_errno = None,
                       rl_buffer = b, rl_unread = rs \<rparr>)"

fun indigo_read_line_loop ::
  "(int \<times> char) list \<Rightarrow> string \<Rightarrow> int \<Rightarrow> int \<Rightarrow> (fault + read_line_exit) option" where
  "indigo_read_line_loop [] buffer length' total_bytes =
     (if total_bytes < length' then None
      else Some (read_line_end [] buffer total_bytes))"
| "indigo_read_line_loop ((bytes_read, c) # rs) buffer length' total_bytes =
     (if total_bytes < length' then
        (if bytes_read > 0 then
           (if c = CR then indigo_read_line_loop rs buffer length' total_bytes
            else if c \<noteq> LF then
              (case store buffer total_bytes c of
                 Inl f \<Rightarrow> Some (Inl f)
               | Inr b \<Rightarrow> indigo_read_line_loop rs b length' (total_bytes + 1))
            else Some (read_line_end rs buffer total_bytes))
         else Some (Inr \<lparr> rl_ret = - 1, rl_errno = Some ECONNRESET,
                           rl_buffer = buffer, rl_unread = rs \<rparr>))
      else Some (read_line_end ((bytes_read, c) # rs) buffer total_bytes))"

definition indigo_read_line ::
  "(int \<times> char) list \<Rightarrow> string \<Rightarrow> int \<Rightarrow> (fault + read_line_exit) option" where
  "indigo_read_line rs buffer length' = indigo_read_line_loop rs buffer length' 0"

subsection \<open>Writing\<close>

text \<open>
  \<^verbatim>\<open>indigo_write(handle, buffer, length)\<close>. \<open>buffer\<close> is the offset of the pointer from the
  start of the caller's buffer. The exit state keeps the requests made, in order: the
  pair \<open>(buffer, remains)\<close> of each \<^verbatim>\<open>write(handle, buffer, remains)\<close>.
\<close>

record write_exit =
  wr_ok :: bool
  wr_requests :: "(int \<times> int) list"

definition add_request :: "int \<times> int \<Rightarrow> write_exit \<Rightarrow> write_exit" where
  "add_request rq e = e\<lparr> wr_requests := rq # wr_requests e \<rparr>"

fun indigo_write_loop :: "int list \<Rightarrow> int \<Rightarrow> int \<Rightarrow> write_exit option" where
  "indigo_write_loop [] buffer remains = None"
| "indigo_write_loop (bytes_written # ws) buffer remains =
     (if bytes_written < 0
      then Some \<lparr> wr_ok = False, wr_requests = [(buffer, remains)] \<rparr>
      else if bytes_written = remains
      then Some \<lparr> wr_ok = True, wr_requests = [(buffer, remains)] \<rparr>
      else map_option (add_request (buffer, remains))
             (indigo_write_loop ws (buffer + bytes_written) (remains - bytes_written)))"

definition indigo_write :: "int list \<Rightarrow> int \<Rightarrow> write_exit option" where
  "indigo_write ws length' = indigo_write_loop ws 0 length'"

text \<open>
  The bytes that the writes have taken from memory: a write that returns \<open>w \<ge> 0\<close> on the
  request \<open>(buffer, remains)\<close> has transferred the \<open>w\<close> bytes from offset \<open>buffer\<close> on.
  \<open>mem\<close> is the memory from the start of the caller's buffer on.
\<close>

fun transferred :: "string \<Rightarrow> (int \<times> int) list \<Rightarrow> int list \<Rightarrow> string" where
  "transferred mem ((buffer, remains) # rqs) (w # ws) =
     (if w < 0 then [] else take (nat w) (drop (nat buffer) mem)) @ transferred mem rqs ws"
| "transferred mem rqs ws = []"

subsection \<open>Formatted writing\<close>

text \<open>
  \<^verbatim>\<open>vsnprintf(buffer, n, format, args)\<close>, for \<open>n > 0\<close>: \<open>out\<close> is the formatted output in
  full. The function stores at most \<open>n - 1\<close> characters of it and a NUL, and returns the
  length of the output in full (-1 when this does not fit an \<^verbatim>\<open>int\<close>). The result is the
  part of the array it has written and the value returned.
\<close>

definition vsnprintf :: "nat \<Rightarrow> string \<Rightarrow> string \<times> int" where
  "vsnprintf n out =
     (take (n - 1) out @ [NUL],
      if int (length out) \<le> INT_MAX then int (length out) else - 1)"

text \<open>
  \<^verbatim>\<open>indigo_printf(handle, format, ...)\<close> with its \<^verbatim>\<open>char buffer[1024]\<close>: the exit state
  keeps what \<^verbatim>\<open>vsnprintf\<close> has written to the buffer, the length passed to
  \<^verbatim>\<open>indigo_write\<close>, and what \<^verbatim>\<open>indigo_write\<close> hands back.
\<close>

record printf_exit =
  pf_buffer :: string
  pf_length :: int
  pf_write :: "write_exit option"

definition indigo_printf :: "int list \<Rightarrow> string \<Rightarrow> printf_exit" where
  "indigo_printf ws out =
     (let (buffer, length') = vsnprintf 1024 out in
      \<lparr> pf_buffer = buffer, pf_length = length', pf_write = indigo_write ws length' \<rparr>)"

text \<open>A request reaches outside an array of \<open>n\<close> bytes; a negative count, converted to
  \<^verbatim>\<open>size_t\<close>, is larger than any array.\<close>

definition request_outside :: "nat \<Rightarrow> int \<times> int \<Rightarrow> bool" where
  "request_outside n rq = (case rq of (buffer, remains) \<Rightarrow>
     buffer < 0 \<or> remains < 0 \<or> int n < buffer + remains)"

text \<open>
  The requests of a full-buffer write, in the words of the specification: after the
  results \<open>ws\<close>, the \<open>i\<close>-th request starts where the bytes transferred so far end and
  asks for all that is left of \<open>length\<close>, the untransferred suffix. A short write is one
  that transfers fewer bytes than were left and is not negative.
\<close>

definition suffix_requests :: "int list \<Rightarrow> int \<Rightarrow> (int \<times> int) list" where
  "suffix_requests ws length' =
     map (\<lambda>i. (sum_list (take i ws), length' - sum_list (take i ws))) [0..<length ws]"

definition short_writes :: "int list \<Rightarrow> int \<Rightarrow> bool" where
  "short_writes ws length' \<longleftrightarrow>
     (\<forall>i<length ws. 0 \<le> ws ! i \<and> ws ! i < length' - sum_list (take i ws))"

section \<open>Properties\<close>

lemmas speed_defs =
  B50_def B75_def B110_def B134_def B150_def B200_def B300_def B600_def B1200_def
  B1800_def B2400_def B4800_def B9600_def B19200_def B38400_def B57600_def B115200_def
  B230400_def B460800_def B500000_def B576000_def B921600_def B1000000_def B1152000_def
  B1500000_def B2000000_def B2500000_def B3000000_def B3500000_def B4000000_def

subsection \<open>The baud rate table and the configuration string\<close>

lemma map_str_baudrate_empty: "map_str_baudrate '''' = Inr 0"
  by (simp add: map_str_baudrate_def br_def BR_def char_at_def)

lemma map_str_baudrate_9600: "map_str_baudrate ''9600'' = Inr B9600"
  by (simp add: map_str_baudrate_def br_def BR_def char_at_def)

lemma fill_options_speed:
  "c_ispeed (fill_options cbits cpar ipar bstop baudr) = baudr"
  "c_ospeed (fill_options cbits cpar ipar bstop baudr) = baudr"
  by (simp_all add: fill_options_def cfsetispeed_def cfsetospeed_def)

text \<open>
  C9. A configuration string with an empty baud field is a \<^verbatim>\<open>'-'\<close> followed by the mode.
  \<^verbatim>\<open>map_str_baudrate\<close> compares the empty string with every entry, the comparison with the
  sentinel \<^verbatim>\<open>BR("", 0)\<close> succeeds before the sentinel test is reached, and the value 0
  comes back instead of -1. With a well-formed mode \<^verbatim>\<open>configure_tty_options\<close> then accepts
  the string and sets the input and the output speed to 0, the constant \<^verbatim>\<open>B0\<close>.
\<close>

theorem empty_baud_field_configures_B0:
  assumes "length mode = 3"
    and "switch_cbits (mode ! 0) = Some cbits"
    and "switch_parity (mode ! 1) = Some (cpar, ipar)"
    and "switch_bstop (mode ! 2) = Some bstop"
  shows "map_str_baudrate '''' = Inr 0
    \<and> value' (last br) = 0 \<and> str (last br) = ''''
    \<and> configure_tty_options (CHR ''-'' # mode)
        = Configured (fill_options cbits cpar ipar bstop 0)
    \<and> c_ispeed (fill_options cbits cpar ipar bstop 0) = 0
    \<and> c_ospeed (fill_options cbits cpar ipar bstop 0) = 0
    \<and> configure_tty_options (CHR ''-'' # mode) \<noteq> Rejected EINVAL"
proof -
  have tbl: "value' (last br) = 0 \<and> str (last br) = ''''"
    by (simp add: br_def BR_def)
  have cfg: "configure_tty_options (CHR ''-'' # mode)
      = Configured (fill_options cbits cpar ipar bstop 0)"
    using assms by (simp add: configure_tty_options_def map_str_baudrate_empty)
  show ?thesis
    using tbl cfg by (simp add: map_str_baudrate_empty fill_options_speed)
qed

theorem empty_baud_field_configures_B0_witness:
  "map_str_baudrate '''' = Inr 0
    \<and> configure_tty_options ''-8N1'' = Configured (fill_options CS8 0 IGNPAR 0 0)
    \<and> c_ispeed (fill_options CS8 0 IGNPAR 0 0) = 0
    \<and> c_ospeed (fill_options CS8 0 IGNPAR 0 0) = 0
    \<and> configure_tty_options ''-8N1'' \<noteq> Rejected EINVAL"
  using empty_baud_field_configures_B0 [of "''8N1''" CS8 0 IGNPAR 0]
  by (simp add: switch_cbits_def switch_parity_def switch_bstop_def)

lemma char_at_Nil_iff: "NUL \<notin> set s \<Longrightarrow> char_at s = NUL \<longleftrightarrow> s = []"
  by (cases s) (auto simp: char_at_def)

lemma of_char_pos: "0 < (of_char c :: nat) \<longleftrightarrow> c \<noteq> NUL"
proof -
  have "(of_char c :: nat) = of_char NUL \<longleftrightarrow> c = NUL"
    by (rule of_char_eq_iff)
  then have "(of_char c :: nat) = 0 \<longleftrightarrow> c = NUL" by simp
  then show ?thesis by (simp add: zero_less_iff_neq_zero)
qed

lemma strncmp_eq_iff:
  assumes "NUL \<notin> set a" and "NUL \<notin> set b"
  shows "strncmp a b (Suc (length a)) = 0 \<longleftrightarrow> a = b"
  using assms
proof (induction a arbitrary: b)
  case Nil
  then show ?case by (cases b) (auto simp: char_at_def of_char_pos)
next
  case (Cons x xs)
  show ?case
  proof (cases b)
    case Nil
    with Cons.prems show ?thesis by (auto simp: char_at_def of_char_pos)
  next
    case (Cons y ys)
    with Cons.prems Cons.IH [of ys] show ?thesis
      by (auto simp: char_at_def)
  qed
qed

text \<open>The table as a function of the baud string.\<close>

lemma map_str_baudrate_loop_lookup:
  assumes "list_all (\<lambda>e. len e = Suc (length (str e)) \<and> NUL \<notin> set (str e)) tbl"
    and "NUL \<notin> set b"
  shows "map_str_baudrate_loop tbl b
       = (case find (\<lambda>e. str e = b \<or> str e = []) tbl of
            None \<Rightarrow> Inl Table_overrun
          | Some e \<Rightarrow> if str e = b then Inr (value' e) else Inr (- 1))"
  using assms
proof (induction tbl)
  case Nil
  then show ?case by simp
next
  case (Cons e tbl)
  then have e: "len e = Suc (length (str e))" "NUL \<notin> set (str e)" by simp_all
  have cmp: "strncmp (str e) b (len e) = 0 \<longleftrightarrow> str e = b"
    using strncmp_eq_iff [OF e(2) Cons.prems(2)] e(1) by simp
  have step: "map_str_baudrate_loop (e # tbl) b
      = (if str e \<noteq> b
         then (if str e = [] then Inr (- 1) else map_str_baudrate_loop tbl b)
         else Inr (value' e))"
    by (simp only: map_str_baudrate_loop.simps cmp char_at_Nil_iff [OF e(2)])
  from Cons.prems have "list_all (\<lambda>e. len e = Suc (length (str e)) \<and> NUL \<notin> set (str e)) tbl"
    by simp
  note IH = Cons.IH [OF this Cons.prems(2)]
  show ?case
    unfolding step using IH by (cases "str e = b"; cases "str e = []") simp_all
qed

lemma br_well_formed:
  "list_all (\<lambda>e. len e = Suc (length (str e)) \<and> NUL \<notin> set (str e)) br"
  by (simp add: br_def BR_def)

lemma map_str_baudrate_lookup:
  assumes "NUL \<notin> set b"
  shows "map_str_baudrate b
       = (case find (\<lambda>e. str e = b \<or> str e = []) br of
            None \<Rightarrow> Inl Table_overrun
          | Some e \<Rightarrow> if str e = b then Inr (value' e) else Inr (- 1))"
  unfolding map_str_baudrate_def
  by (rule map_str_baudrate_loop_lookup [OF br_well_formed assms])

lemma map_str_baudrate_unknown_iff:
  assumes "NUL \<notin> set b"
  shows "map_str_baudrate b = Inr (- 1) \<longleftrightarrow> b \<notin> str ` set br"
  unfolding map_str_baudrate_lookup [OF assms]
  by (simp add: br_def BR_def speed_defs)

lemma map_str_baudrate_no_fault:
  assumes "NUL \<notin> set b"
  shows "\<exists>v. map_str_baudrate b = Inr v"
  unfolding map_str_baudrate_lookup [OF assms]
  by (simp add: br_def BR_def)

lemma strchr_None_iff: "strchr s c = None \<longleftrightarrow> c \<notin> set s"
  by (induction s) auto

lemma strchr_first: "c \<notin> set a \<Longrightarrow> strchr (a @ c # m) c = Some (length a)"
  by (induction a) auto

lemma strchr_Some_split:
  "strchr s c = Some i \<Longrightarrow> s = take i s @ c # drop (Suc i) s \<and> c \<notin> set (take i s)"
proof (induction s arbitrary: i)
  case Nil
  then show ?case by simp
next
  case (Cons x xs)
  show ?case
  proof (cases "x = c")
    case True
    with Cons.prems show ?thesis by simp
  next
    case False
    with Cons.prems obtain j where j: "strchr xs c = Some j" "i = Suc j" by auto
    with Cons.IH [OF j(1)] False show ?thesis by simp
  qed
qed

lemma switch_cbits_None_iff:
  "switch_cbits c = None \<longleftrightarrow> c \<notin> {CHR ''5'', CHR ''6'', CHR ''7'', CHR ''8''}"
  by (simp add: switch_cbits_def)

lemma switch_parity_None_iff:
  "switch_parity c = None
     \<longleftrightarrow> c \<notin> {CHR ''N'', CHR ''n'', CHR ''E'', CHR ''e'', CHR ''O'', CHR ''o''}"
  by (simp add: switch_parity_def)

lemma switch_bstop_None_iff:
  "switch_bstop c = None \<longleftrightarrow> c \<notin> {CHR ''1'', CHR ''2''}"
  by (simp add: switch_bstop_def)

lemma br_no_dash: "baud \<in> str ` set br \<Longrightarrow> CHR ''-'' \<notin> set baud"
  by (auto simp: br_def BR_def)

text \<open>What \<^verbatim>\<open>configure_tty_options\<close> does once the string is split at its first dash.\<close>

lemma configure_tty_options_split:
  assumes "length (baud @ CHR ''-'' # mode) < 32" and "NUL \<notin> set baud"
    and "CHR ''-'' \<notin> set baud"
  shows "configure_tty_options (baud @ CHR ''-'' # mode)
       = (if baud \<in> str ` set br \<and> length mode = 3
             \<and> switch_cbits (mode ! 0) \<noteq> None \<and> switch_parity (mode ! 1) \<noteq> None
             \<and> switch_bstop (mode ! 2) \<noteq> None
          then Configured (fill_options (the (switch_cbits (mode ! 0)))
                 (fst (the (switch_parity (mode ! 1)))) (snd (the (switch_parity (mode ! 1))))
                 (the (switch_bstop (mode ! 2))) (projr (map_str_baudrate baud)))
          else Rejected EINVAL)"
proof -
  obtain v where v: "map_str_baudrate baud = Inr v"
    using map_str_baudrate_no_fault [OF assms(2)] by blast
  have unknown: "v = - 1 \<longleftrightarrow> baud \<notin> str ` set br"
    using map_str_baudrate_unknown_iff [OF assms(2)] v by simp
  have len: "\<not> 32 \<le> length (baud @ CHR ''-'' # mode)"
    using assms(1) by simp
  have parts: "take (length baud) (baud @ CHR ''-'' # mode) = baud"
    "drop (Suc (length baud)) (baud @ CHR ''-'' # mode) = mode"
    by simp_all
  have base: "configure_tty_options (baud @ CHR ''-'' # mode)
      = (if v = - 1 then Rejected EINVAL
         else if length mode \<noteq> 3 then Rejected EINVAL
         else (case switch_cbits (mode ! 0) of
            None \<Rightarrow> Rejected EINVAL
          | Some cbits \<Rightarrow>
             (case switch_parity (mode ! 1) of
                None \<Rightarrow> Rejected EINVAL
              | Some (cpar, ipar) \<Rightarrow>
                 (case switch_bstop (mode ! 2) of
                    None \<Rightarrow> Rejected EINVAL
                  | Some bstop \<Rightarrow> Configured (fill_options cbits cpar ipar bstop v)))))"
    unfolding configure_tty_options_def
    by (simp only: len if_False strchr_first [OF assms(3)] option.case Let_def parts v sum.case)
  show ?thesis
    unfolding base
    by (cases "switch_cbits (mode ! 0)"; cases "switch_parity (mode ! 1)";
        cases "switch_bstop (mode ! 2)")
      (simp_all add: unknown v split: prod.splits)
qed

lemma mode_three: "length mode = 3 \<Longrightarrow> \<exists>d p s. mode = [d, p, s]"
  by (auto simp: length_Suc_conv numeral_3_eq_3)

lemma split_at_first_dash_unique:
  assumes "b @ CHR ''-'' # m = baud @ CHR ''-'' # mode"
    and "CHR ''-'' \<notin> set b" and "CHR ''-'' \<notin> set baud"
  shows "b = baud \<and> m = mode"
proof -
  have "strchr (b @ CHR ''-'' # m) CHR ''-'' = Some (length b)"
    by (rule strchr_first [OF assms(2)])
  moreover have "strchr (baud @ CHR ''-'' # mode) CHR ''-'' = Some (length baud)"
    by (rule strchr_first [OF assms(3)])
  ultimately have "length b = length baud"
    using assms(1) by simp
  with assms(1) show ?thesis by simp
qed

lemma config_form_split:
  assumes "CHR ''-'' \<notin> set baud"
  shows "config_form (baud @ CHR ''-'' # mode) \<longleftrightarrow>
        baud \<in> str ` set br \<and> length mode = 3
          \<and> switch_cbits (mode ! 0) \<noteq> None \<and> switch_parity (mode ! 1) \<noteq> None
          \<and> switch_bstop (mode ! 2) \<noteq> None"
    (is "?form \<longleftrightarrow> ?ok")
proof
  assume ?form
  then obtain b d p s where f: "baud @ CHR ''-'' # mode = b @ [CHR ''-'', d, p, s]"
    "b \<in> str ` set br"
    "d \<in> {CHR ''5'', CHR ''6'', CHR ''7'', CHR ''8''}"
    "p \<in> {CHR ''N'', CHR ''n'', CHR ''E'', CHR ''e'', CHR ''O'', CHR ''o''}"
    "s \<in> {CHR ''1'', CHR ''2''}"
    unfolding config_form_def by blast
  from f(2) have "CHR ''-'' \<notin> set b" by (rule br_no_dash)
  from split_at_first_dash_unique [OF f(1) [symmetric] this assms]
  have eq: "b = baud" "mode = [d, p, s]" by simp_all
  have "switch_cbits d \<noteq> None" "switch_parity p \<noteq> None" "switch_bstop s \<noteq> None"
    using f(3,4,5)
    by (simp_all only: switch_cbits_None_iff switch_parity_None_iff switch_bstop_None_iff
        not_not)
  with eq f(2) show ?ok by simp
next
  assume ok: ?ok
  then obtain d p s where m: "mode = [d, p, s]"
    using mode_three by blast
  from ok m have "d \<in> {CHR ''5'', CHR ''6'', CHR ''7'', CHR ''8''}"
    "p \<in> {CHR ''N'', CHR ''n'', CHR ''E'', CHR ''e'', CHR ''O'', CHR ''o''}"
    "s \<in> {CHR ''1'', CHR ''2''}"
    using switch_cbits_None_iff [of d] switch_parity_None_iff [of p] switch_bstop_None_iff [of s]
    by simp_all
  with ok m show ?form
    unfolding config_form_def by blast
qed

lemma configure_tty_options_accepts_iff:
  assumes "length cfg < 32" and "NUL \<notin> set cfg"
  shows "(config_form cfg \<longrightarrow> (\<exists>t. configure_tty_options cfg = Configured t))
       \<and> (\<not> config_form cfg \<longrightarrow> configure_tty_options cfg = Rejected EINVAL)"
proof (cases "strchr cfg CHR ''-''")
  case None
  then have nodash: "CHR ''-'' \<notin> set cfg" by (simp add: strchr_None_iff)
  then have "\<not> config_form cfg" by (auto simp: config_form_def)
  moreover have "configure_tty_options cfg = Rejected EINVAL"
    using None assms(1) by (simp add: configure_tty_options_def)
  ultimately show ?thesis by simp
next
  case (Some i)
  define baud where "baud = take i cfg"
  define mode where "mode = drop (Suc i) cfg"
  from strchr_Some_split [OF Some]
  have cfg: "cfg = baud @ CHR ''-'' # mode" and nodash: "CHR ''-'' \<notin> set baud"
    by (simp_all add: baud_def mode_def)
  from assms(2) have nonul: "NUL \<notin> set baud"
    by (subst (asm) cfg) simp
  have len: "length (baud @ CHR ''-'' # mode) < 32"
    using assms(1) by (subst (asm) cfg)
  note split = configure_tty_options_split [OF len nonul nodash]
  note form = config_form_split [OF nodash, of mode]
  show ?thesis
    by (subst cfg, subst cfg, subst cfg, subst cfg) (simp add: split form)
qed

lemma config_form_empty_baud: "config_form ''-8N1''"
  unfolding config_form_def
  by (rule exI [of _ "''''"], rule exI [of _ "CHR ''8''"], rule exI [of _ "CHR ''N''"],
      rule exI [of _ "CHR ''1''"]) (simp add: br_def BR_def)

lemma indigo_open_serial_with_config_rejects:
  assumes "length baudconfig < 32" and "NUL \<notin> set baudconfig"
    and "\<not> config_form baudconfig"
  shows "indigo_open_serial_with_config os dev_file baudconfig
       = Inr \<lparr> ret = - 1, errno_set = Some EINVAL, calls = [] \<rparr>"
  using configure_tty_options_accepts_iff [OF assms(1,2)] assms(3)
  by (simp add: indigo_open_serial_with_config_def)

text \<open>
  C4. A configuration string shorter than 32 characters that does not have the form
  \<open>config_form\<close> is rejected with \<^verbatim>\<open>EINVAL\<close> and no call is made
  (\<open>indigo_open_serial_with_config_rejects\<close>). The form, though, takes the empty string of
  the sentinel for a baud string of the table: at the input \<^verbatim>\<open>"-8N1"\<close> the baud field
  is empty, no baud rate is named, and yet \<^verbatim>\<open>indigo_open_serial_with_config\<close> does not
  return -1 with \<^verbatim>\<open>EINVAL\<close>: it goes on to \<^verbatim>\<open>open_tty\<close> and opens the device file.
\<close>

theorem open_serial_with_empty_baud_opens_device:
  "indigo_open_serial_with_config os dev_file ''-8N1''
     = Inr (open_tty os dev_file (fill_options CS8 0 IGNPAR 0 0) False)
   \<and> errno_set (open_tty os dev_file (fill_options CS8 0 IGNPAR 0 0) False) = None
   \<and> hd (calls (open_tty os dev_file (fill_options CS8 0 IGNPAR 0 0) False))
       = Sys_open dev_file [O_RDWR, O_NOCTTY, O_SYNC]"
proof -
  have "configure_tty_options ''-8N1'' = Configured (fill_options CS8 0 IGNPAR 0 0)"
    by (simp add: configure_tty_options_def map_str_baudrate_empty
        switch_cbits_def switch_parity_def switch_bstop_def)
  then show ?thesis
    by (simp add: indigo_open_serial_with_config_def open_tty_def Let_def)
qed

subsection \<open>The default serial configuration\<close>

lemma snprintf_9600: "snprintf_d_8N1 32 9600 = ''9600-8N1''"
  by (simp add: snprintf_d_8N1_def dec_int_def dec_nat.simps digit_char_def)

text \<open>
  C7. \<^verbatim>\<open>indigo_open_serial\<close> formats the speed 9600 into \<^verbatim>\<open>"9600-8N1"\<close> and hands it to
  \<^verbatim>\<open>indigo_open_serial_with_config\<close>: on every device file, and whatever the operating
  system answers, the two return the same result and make the same calls.
\<close>

theorem indigo_open_serial_is_9600_8N1:
  "indigo_open_serial os dev_file = indigo_open_serial_with_speed os dev_file 9600
   \<and> snprintf_d_8N1 32 9600 = ''9600-8N1''
   \<and> indigo_open_serial os dev_file = indigo_open_serial_with_config os dev_file ''9600-8N1''"
  by (simp add: indigo_open_serial_def indigo_open_serial_with_speed_def snprintf_9600)

theorem indigo_open_serial_is_9600_8N1_witness:
  "indigo_open_serial \<lparr> open_result = 3, tcgetattr_result = 0, tcsetattr_result = 0 \<rparr> ''/dev/ttyUSB0''
     = indigo_open_serial_with_config
         \<lparr> open_result = 3, tcgetattr_result = 0, tcsetattr_result = 0 \<rparr> ''/dev/ttyUSB0'' ''9600-8N1''
   \<and> indigo_open_serial_with_config
         \<lparr> open_result = 3, tcgetattr_result = 0, tcsetattr_result = 0 \<rparr> ''/dev/ttyUSB0'' ''9600-8N1''
     = Inr \<lparr> ret = 3, errno_set = None,
             calls = [Sys_open ''/dev/ttyUSB0'' [O_RDWR, O_NOCTTY, O_SYNC],
                      Sys_tcsetattr 3 (fill_options CS8 0 IGNPAR 0 B9600)] \<rparr>"
proof -
  let ?os = "\<lparr> open_result = 3, tcgetattr_result = 0, tcsetattr_result = 0 \<rparr>"
  have same: "indigo_open_serial ?os ''/dev/ttyUSB0''
      = indigo_open_serial_with_config ?os ''/dev/ttyUSB0'' ''9600-8N1''"
    using indigo_open_serial_is_9600_8N1 [of ?os "''/dev/ttyUSB0''"] by blast
  have run: "indigo_open_serial_with_config ?os ''/dev/ttyUSB0'' ''9600-8N1''
      = Inr \<lparr> ret = 3, errno_set = None,
              calls = [Sys_open ''/dev/ttyUSB0'' [O_RDWR, O_NOCTTY, O_SYNC],
                       Sys_tcsetattr 3 (fill_options CS8 0 IGNPAR 0 B9600)] \<rparr>"
    by (simp add: indigo_open_serial_with_config_def configure_tty_options_def
        map_str_baudrate_9600 B9600_def switch_cbits_def switch_parity_def switch_bstop_def
        open_tty_def)
  show ?thesis
    using same run by (rule conjI)
qed

subsection \<open>Opening a socket\<close>

lemma indigo_open_tcp_cases:
  "gethostbyname_result os = None \<Longrightarrow> open_failed (indigo_open_tcp os host port)"
  "socket_result os = - 1 \<Longrightarrow> open_failed (indigo_open_tcp os host port)"
  "connect_result os < 0 \<Longrightarrow> open_failed (indigo_open_tcp os host port)"
  "setsockopt_rcvtimeo_result os < 0 \<Longrightarrow> open_failed (indigo_open_tcp os host port)"
  "setsockopt_sndtimeo_result os < 0 \<Longrightarrow> open_failed (indigo_open_tcp os host port)"
  by (simp_all add: indigo_open_tcp_def open_failed_def Let_def split: option.split)

lemma indigo_open_udp_cases:
  "gethostbyname_result os = None \<Longrightarrow> open_failed (indigo_open_udp os host port)"
  "socket_result os = - 1 \<Longrightarrow> open_failed (indigo_open_udp os host port)"
  "connect_result os < 0 \<Longrightarrow> open_failed (indigo_open_udp os host port)"
  "setsockopt_rcvtimeo_result os < 0 \<Longrightarrow> open_failed (indigo_open_udp os host port)"
  "setsockopt_sndtimeo_result os < 0 \<Longrightarrow> open_failed (indigo_open_udp os host port)"
  by (simp_all add: indigo_open_udp_def open_failed_def Let_def split: option.split)

lemma indigo_open_tcp_closes:
  assumes "gethostbyname_result os = Some addr" "socket_result os \<noteq> - 1"
    and "0 \<le> connect_result os"
    and "setsockopt_rcvtimeo_result os < 0 \<or> setsockopt_sndtimeo_result os < 0"
  shows "socket_closed (socket_result os) (indigo_open_tcp os host port)"
  using assms by (auto simp add: indigo_open_tcp_def socket_closed_def Let_def)

lemma indigo_open_udp_closes:
  assumes "gethostbyname_result os = Some addr" "socket_result os \<noteq> - 1"
    and "0 \<le> connect_result os"
    and "setsockopt_rcvtimeo_result os < 0 \<or> setsockopt_sndtimeo_result os < 0"
  shows "socket_closed (socket_result os) (indigo_open_udp os host port)"
  using assms by (auto simp add: indigo_open_udp_def socket_closed_def Let_def)

lemma indigo_open_tcp_succeeds:
  assumes "gethostbyname_result os = Some addr" "socket_result os \<noteq> - 1"
    and "0 \<le> connect_result os"
    and "0 \<le> setsockopt_rcvtimeo_result os" "0 \<le> setsockopt_sndtimeo_result os"
  shows "open_succeeded SOCK_STREAM (socket_result os) addr port (indigo_open_tcp os host port)"
  using assms by (simp add: indigo_open_tcp_def open_succeeded_def Let_def)

lemma indigo_open_udp_succeeds:
  assumes "gethostbyname_result os = Some addr" "socket_result os \<noteq> - 1"
    and "0 \<le> connect_result os"
    and "0 \<le> setsockopt_rcvtimeo_result os" "0 \<le> setsockopt_sndtimeo_result os"
  shows "open_succeeded SOCK_DGRAM (socket_result os) addr port (indigo_open_udp os host port)"
  using assms by (simp add: indigo_open_udp_def open_succeeded_def Let_def)

lemma indigo_open_tcp_no_close:
  assumes "gethostbyname_result os = None \<or> socket_result os = - 1 \<or> connect_result os < 0"
  shows "\<forall>s. Sys_close s \<notin> set (calls (indigo_open_tcp os host port))"
  using assms by (auto simp add: indigo_open_tcp_def Let_def split: option.split)

lemma indigo_open_udp_no_close:
  assumes "gethostbyname_result os = None \<or> socket_result os = - 1 \<or> connect_result os < 0"
  shows "\<forall>s. Sys_close s \<notin> set (calls (indigo_open_udp os host port))"
  using assms by (auto simp add: indigo_open_udp_def Let_def split: option.split)

text \<open>
  C3. Whatever the host and the port, and whatever the operating system answers,
  \<^verbatim>\<open>indigo_open_tcp\<close> and \<^verbatim>\<open>indigo_open_udp\<close> end in one of two ways. Either they
  return -1: this is what happens when the name is not resolved, when no socket is
  created, when \<^verbatim>\<open>connect\<close> fails and when one of the two \<^verbatim>\<open>setsockopt\<close> fails, and
  in this last case, and in no other, the socket has been closed. Or every call has
  succeeded: then both functions return the socket that \<^verbatim>\<open>socket\<close> gave, not -1,
  connected, not closed, with the receive and the send timeout both set to 5 seconds
  and 0 microseconds.
\<close>

theorem indigo_open_tcp_udp_outcome:
  fixes os :: net_os and host :: string and port :: int
  shows "(gethostbyname_result os = None \<or> socket_result os = - 1 \<or> connect_result os < 0
            \<or> setsockopt_rcvtimeo_result os < 0 \<or> setsockopt_sndtimeo_result os < 0
          \<longrightarrow> open_failed (indigo_open_tcp os host port)
              \<and> open_failed (indigo_open_udp os host port))
    \<and> (gethostbyname_result os \<noteq> None \<and> socket_result os \<noteq> - 1 \<and> 0 \<le> connect_result os
          \<and> (setsockopt_rcvtimeo_result os < 0 \<or> setsockopt_sndtimeo_result os < 0)
          \<longrightarrow> socket_closed (socket_result os) (indigo_open_tcp os host port)
              \<and> socket_closed (socket_result os) (indigo_open_udp os host port))
    \<and> (gethostbyname_result os = None \<or> socket_result os = - 1 \<or> connect_result os < 0
          \<longrightarrow> (\<forall>s. Sys_close s \<notin> set (calls (indigo_open_tcp os host port)))
              \<and> (\<forall>s. Sys_close s \<notin> set (calls (indigo_open_udp os host port))))
    \<and> (gethostbyname_result os = Some addr \<and> socket_result os \<noteq> - 1
          \<and> 0 \<le> connect_result os
          \<and> 0 \<le> setsockopt_rcvtimeo_result os \<and> 0 \<le> setsockopt_sndtimeo_result os
          \<longrightarrow> open_succeeded SOCK_STREAM (socket_result os) addr port
                (indigo_open_tcp os host port)
              \<and> open_succeeded SOCK_DGRAM (socket_result os) addr port
                (indigo_open_udp os host port)
              \<and> ret (indigo_open_tcp os host port) = socket_result os
              \<and> ret (indigo_open_udp os host port) = socket_result os
              \<and> \<not> open_failed (indigo_open_tcp os host port)
              \<and> \<not> open_failed (indigo_open_udp os host port))
    \<and> (open_failed (indigo_open_tcp os host port) \<or>
          (\<exists>addr. gethostbyname_result os = Some addr \<and> 0 \<le> connect_result os
             \<and> open_succeeded SOCK_STREAM (socket_result os) addr port
                  (indigo_open_tcp os host port)))
    \<and> (open_failed (indigo_open_udp os host port) \<or>
          (\<exists>addr. gethostbyname_result os = Some addr \<and> 0 \<le> connect_result os
             \<and> open_succeeded SOCK_DGRAM (socket_result os) addr port
                  (indigo_open_udp os host port)))"
    (is "?fail \<and> ?closed \<and> ?unclosed \<and> ?success \<and> ?tcp \<and> ?udp")
proof -
  let ?bad = "gethostbyname_result os = None \<or> socket_result os = - 1 \<or> connect_result os < 0
            \<or> setsockopt_rcvtimeo_result os < 0 \<or> setsockopt_sndtimeo_result os < 0"
  have bad_tcp: "open_failed (indigo_open_tcp os host port)" if ?bad
    using that indigo_open_tcp_cases [of os host port] by (elim disjE) simp_all
  have bad_udp: "open_failed (indigo_open_udp os host port)" if ?bad
    using that indigo_open_udp_cases [of os host port] by (elim disjE) simp_all
  have "?fail"
    using bad_tcp bad_udp by (intro impI conjI)
  moreover have "?closed"
  proof (intro impI conjI)
    assume h: "gethostbyname_result os \<noteq> None \<and> socket_result os \<noteq> - 1 \<and> 0 \<le> connect_result os
          \<and> (setsockopt_rcvtimeo_result os < 0 \<or> setsockopt_sndtimeo_result os < 0)"
    then obtain addr where a: "gethostbyname_result os = Some addr"
      by (cases "gethostbyname_result os") simp_all
    from h have rest: "socket_result os \<noteq> - 1" "0 \<le> connect_result os"
      "setsockopt_rcvtimeo_result os < 0 \<or> setsockopt_sndtimeo_result os < 0"
      by simp_all
    show "socket_closed (socket_result os) (indigo_open_tcp os host port)"
      by (rule indigo_open_tcp_closes [OF a rest])
    show "socket_closed (socket_result os) (indigo_open_udp os host port)"
      by (rule indigo_open_udp_closes [OF a rest])
  qed
  moreover have "?unclosed"
    using indigo_open_tcp_no_close [of os host port] indigo_open_udp_no_close [of os host port]
    by (intro impI conjI)
  moreover have "?success"
  proof (intro impI)
    assume h: "gethostbyname_result os = Some addr \<and> socket_result os \<noteq> - 1
          \<and> 0 \<le> connect_result os
          \<and> 0 \<le> setsockopt_rcvtimeo_result os \<and> 0 \<le> setsockopt_sndtimeo_result os"
    then have a: "gethostbyname_result os = Some addr"
      and rest: "socket_result os \<noteq> - 1" "0 \<le> connect_result os"
        "0 \<le> setsockopt_rcvtimeo_result os" "0 \<le> setsockopt_sndtimeo_result os"
      by simp_all
    have t: "open_succeeded SOCK_STREAM (socket_result os) addr port
        (indigo_open_tcp os host port)"
      by (rule indigo_open_tcp_succeeds [OF a rest])
    have u: "open_succeeded SOCK_DGRAM (socket_result os) addr port
        (indigo_open_udp os host port)"
      by (rule indigo_open_udp_succeeds [OF a rest])
    from t have rt: "ret (indigo_open_tcp os host port) = socket_result os"
      by (simp add: open_succeeded_def)
    from u have ru: "ret (indigo_open_udp os host port) = socket_result os"
      by (simp add: open_succeeded_def)
    from rt rest(1) have nt: "\<not> open_failed (indigo_open_tcp os host port)"
      by (simp add: open_failed_def)
    from ru rest(1) have nu: "\<not> open_failed (indigo_open_udp os host port)"
      by (simp add: open_failed_def)
    from t u rt ru nt nu
    show "open_succeeded SOCK_STREAM (socket_result os) addr port
                (indigo_open_tcp os host port)
              \<and> open_succeeded SOCK_DGRAM (socket_result os) addr port
                (indigo_open_udp os host port)
              \<and> ret (indigo_open_tcp os host port) = socket_result os
              \<and> ret (indigo_open_udp os host port) = socket_result os
              \<and> \<not> open_failed (indigo_open_tcp os host port)
              \<and> \<not> open_failed (indigo_open_udp os host port)"
      by (intro conjI)
  qed
  moreover have "?tcp"
  proof (cases ?bad)
    case True
    then show ?thesis using bad_tcp by (intro disjI1)
  next
    case False
    then obtain addr where a: "gethostbyname_result os = Some addr"
      by (cases "gethostbyname_result os") simp_all
    from False have rest: "socket_result os \<noteq> - 1" "0 \<le> connect_result os"
      "0 \<le> setsockopt_rcvtimeo_result os" "0 \<le> setsockopt_sndtimeo_result os"
      by simp_all
    have "open_succeeded SOCK_STREAM (socket_result os) addr port (indigo_open_tcp os host port)"
      by (rule indigo_open_tcp_succeeds [OF a rest])
    with a rest(2) show ?thesis by (intro disjI2 exI [of _ addr]) simp
  qed
  moreover have "?udp"
  proof (cases ?bad)
    case True
    then show ?thesis using bad_udp by (intro disjI1)
  next
    case False
    then obtain addr where a: "gethostbyname_result os = Some addr"
      by (cases "gethostbyname_result os") simp_all
    from False have rest: "socket_result os \<noteq> - 1" "0 \<le> connect_result os"
      "0 \<le> setsockopt_rcvtimeo_result os" "0 \<le> setsockopt_sndtimeo_result os"
      by simp_all
    have "open_succeeded SOCK_DGRAM (socket_result os) addr port (indigo_open_udp os host port)"
      by (rule indigo_open_udp_succeeds [OF a rest])
    with a rest(2) show ?thesis by (intro disjI2 exI [of _ addr]) simp
  qed
  ultimately show ?thesis by (intro conjI)
qed

theorem indigo_open_tcp_udp_outcome_witness:
  "open_succeeded SOCK_STREAM 4 2130706433 7624
     (indigo_open_tcp \<lparr> gethostbyname_result = Some 2130706433, socket_result = 4,
        connect_result = 0, setsockopt_rcvtimeo_result = 0, setsockopt_sndtimeo_result = 0 \<rparr>
        ''localhost'' 7624)
   \<and> open_succeeded SOCK_DGRAM 4 2130706433 7624
     (indigo_open_udp \<lparr> gethostbyname_result = Some 2130706433, socket_result = 4,
        connect_result = 0, setsockopt_rcvtimeo_result = 0, setsockopt_sndtimeo_result = 0 \<rparr>
        ''localhost'' 7624)
   \<and> indigo_open_tcp \<lparr> gethostbyname_result = Some 2130706433, socket_result = 4,
        connect_result = 0, setsockopt_rcvtimeo_result = 0, setsockopt_sndtimeo_result = 0 \<rparr>
        ''localhost'' 7624
      = \<lparr> ret = 4, errno_set = None,
           calls = [Sys_gethostbyname ''localhost'', Sys_socket SOCK_STREAM,
                    Sys_connect 4 2130706433 7624,
                    Sys_setsockopt 4 SO_RCVTIMEO \<lparr> tv_sec = 5, tv_usec = 0 \<rparr>,
                    Sys_setsockopt 4 SO_SNDTIMEO \<lparr> tv_sec = 5, tv_usec = 0 \<rparr>] \<rparr>
   \<and> ret (indigo_open_udp \<lparr> gethostbyname_result = Some 2130706433, socket_result = 4,
        connect_result = 0, setsockopt_rcvtimeo_result = 0, setsockopt_sndtimeo_result = 0 \<rparr>
        ''localhost'' 7624) = 4
   \<and> open_failed (indigo_open_udp \<lparr> gethostbyname_result = Some 2130706433, socket_result = 4,
        connect_result = 0, setsockopt_rcvtimeo_result = 0, setsockopt_sndtimeo_result = - 1 \<rparr>
        ''localhost'' 7624)
   \<and> socket_closed 4 (indigo_open_udp \<lparr> gethostbyname_result = Some 2130706433, socket_result = 4,
        connect_result = 0, setsockopt_rcvtimeo_result = 0, setsockopt_sndtimeo_result = - 1 \<rparr>
        ''localhost'' 7624)
   \<and> open_failed (indigo_open_tcp \<lparr> gethostbyname_result = Some 2130706433, socket_result = 4,
        connect_result = - 1, setsockopt_rcvtimeo_result = 0, setsockopt_sndtimeo_result = 0 \<rparr>
        ''localhost'' 7624)"
proof -
  let ?ok = "\<lparr> gethostbyname_result = Some 2130706433, socket_result = 4,
        connect_result = 0, setsockopt_rcvtimeo_result = 0, setsockopt_sndtimeo_result = 0 \<rparr>"
  let ?bad = "\<lparr> gethostbyname_result = Some 2130706433, socket_result = 4,
        connect_result = 0, setsockopt_rcvtimeo_result = 0, setsockopt_sndtimeo_result = - 1 \<rparr>"
  let ?noconn = "\<lparr> gethostbyname_result = Some 2130706433, socket_result = 4,
        connect_result = - 1, setsockopt_rcvtimeo_result = 0, setsockopt_sndtimeo_result = 0 \<rparr>"
  have ok: "open_succeeded SOCK_STREAM 4 2130706433 7624 (indigo_open_tcp ?ok ''localhost'' 7624)
      \<and> open_succeeded SOCK_DGRAM 4 2130706433 7624 (indigo_open_udp ?ok ''localhost'' 7624)
      \<and> ret (indigo_open_udp ?ok ''localhost'' 7624) = 4"
    using indigo_open_tcp_udp_outcome
      [where os = ?ok and addr = 2130706433 and port = 7624 and host = "''localhost''"] by simp
  have run: "indigo_open_tcp ?ok ''localhost'' 7624
      = \<lparr> ret = 4, errno_set = None,
           calls = [Sys_gethostbyname ''localhost'', Sys_socket SOCK_STREAM,
                    Sys_connect 4 2130706433 7624,
                    Sys_setsockopt 4 SO_RCVTIMEO \<lparr> tv_sec = 5, tv_usec = 0 \<rparr>,
                    Sys_setsockopt 4 SO_SNDTIMEO \<lparr> tv_sec = 5, tv_usec = 0 \<rparr>] \<rparr>"
    by (simp add: indigo_open_tcp_def Let_def htons_def)
  have bad: "open_failed (indigo_open_udp ?bad ''localhost'' 7624)
      \<and> socket_closed 4 (indigo_open_udp ?bad ''localhost'' 7624)"
    using indigo_open_tcp_udp_outcome
      [where os = ?bad and addr = 2130706433 and port = 7624 and host = "''localhost''"] by simp
  have noconn: "open_failed (indigo_open_tcp ?noconn ''localhost'' 7624)"
    using indigo_open_tcp_udp_outcome
      [where os = ?noconn and addr = 2130706433 and port = 7624 and host = "''localhost''"] by simp
  show ?thesis
    using ok run bad noconn by (intro conjI) simp_all
qed

subsection \<open>Reading a given number of bytes\<close>






subsection \<open>Reading a line\<close>

lemma store_in_bounds:
  "0 \<le> i \<Longrightarrow> i < int (length buffer) \<Longrightarrow> store buffer i c = Inr (buffer[nat i := c])"
  by (simp add: store_def)

lemma store_out_of_bounds:
  "int (length buffer) \<le> i \<Longrightarrow> store buffer i c = Inl (Buffer_overflow i)"
  by (simp add: store_def)

lemma stored_prefix_step:
  assumes "t < length b"
  shows "take (Suc t) (b[t := c]) @ line @ drop (Suc t + length line) (b[t := c])
       = take t b @ (c # line) @ drop (t + length (c # line)) b"
proof -
  have "take (Suc t) (b[t := c]) = take t b @ [c]"
    using assms by (simp add: take_Suc_conv_app_nth)
  moreover have "drop (Suc t + length line) (b[t := c]) = drop (Suc t + length line) b"
    by simp
  ultimately show ?thesis by simp
qed

lemma indigo_read_line_loop_prefix:
  assumes "list_all (\<lambda>(n, c). 0 < n \<and> c \<noteq> LF) p"
    and "line = filter (\<lambda>c. c \<noteq> CR) (map snd p)"
    and "0 \<le> tot" and "tot + int (length line) < length'"
    and "length' \<le> int (length buffer)"
  shows "indigo_read_line_loop (p @ rest) buffer length' tot
       = indigo_read_line_loop rest
           (take (nat tot) buffer @ line @ drop (nat tot + length line) buffer)
           length' (tot + int (length line))"
  using assms
proof (induction p arbitrary: buffer tot line)
  case Nil
  then show ?case by simp
next
  case (Cons x p)
  obtain n c where x: "x = (n, c)" by (cases x)
  from Cons.prems(1) x have n: "0 < n" and c: "c \<noteq> LF"
    and p: "list_all (\<lambda>(n, c). 0 < n \<and> c \<noteq> LF) p"
    by simp_all
  let ?line' = "filter (\<lambda>c. c \<noteq> CR) (map snd p)"
  from Cons.prems(3,4) have run: "tot < length'" by simp
  show ?case
  proof (cases "c = CR")
    case True
    with Cons.prems(2) x have l: "line = ?line'" by simp
    have "indigo_read_line_loop ((x # p) @ rest) buffer length' tot
        = indigo_read_line_loop (p @ rest) buffer length' tot"
      using x n True run by simp
    also have "\<dots> = indigo_read_line_loop rest
           (take (nat tot) buffer @ ?line' @ drop (nat tot + length ?line') buffer)
           length' (tot + int (length ?line'))"
      using Cons.prems(3,4,5) l by (intro Cons.IH [OF p refl]) simp_all
    finally show ?thesis using l by simp
  next
    case False
    with Cons.prems(2) x have l: "line = c # ?line'" by simp
    have inb: "nat tot < length buffer"
      using Cons.prems(3,5) run by simp
    let ?b = "buffer[nat tot := c]"
    have st: "store buffer tot c = Inr ?b"
      using Cons.prems(3,5) run by (simp add: store_in_bounds)
    have "indigo_read_line_loop ((x # p) @ rest) buffer length' tot
        = indigo_read_line_loop (p @ rest) ?b length' (tot + 1)"
      using x n False c run st by simp
    also have "\<dots> = indigo_read_line_loop rest
           (take (nat (tot + 1)) ?b @ ?line' @ drop (nat (tot + 1) + length ?line') ?b)
           length' (tot + 1 + int (length ?line'))"
      using Cons.prems(3,4,5) l by (intro Cons.IH [OF p refl]) simp_all
    also have "nat (tot + 1) = Suc (nat tot)"
      using Cons.prems(3) by simp
    also have "take (Suc (nat tot)) ?b @ ?line' @ drop (Suc (nat tot) + length ?line') ?b
        = take (nat tot) buffer @ (c # ?line') @ drop (nat tot + length (c # ?line')) buffer"
      by (rule stored_prefix_step [OF inb])
    finally show ?thesis using l by (simp add: ac_simps)
  qed
qed

lemma read_line_end_in_bounds:
  assumes "0 \<le> tot" "tot < int (length buffer)" "tot \<le> INT_MAX"
  shows "read_line_end rs buffer tot
       = Inr \<lparr> rl_ret = tot, rl_errno = None, rl_buffer = buffer[nat tot := NUL], rl_unread = rs \<rparr>"
  using assms by (simp add: read_line_end_def store_in_bounds to_int_def INT_MAX_def)

lemma read_line_end_out_of_bounds:
  assumes "int (length buffer) \<le> tot"
  shows "read_line_end rs buffer tot = Inl (Buffer_overflow tot)"
  using assms by (simp add: read_line_end_def store_out_of_bounds)

lemma stored_line_terminated:
  assumes "length line < length buffer"
  shows "(line @ drop (length line) buffer)[length line := NUL]
       = line @ NUL # drop (Suc (length line)) buffer"
proof -
  have "drop (length line) buffer = buffer ! length line # drop (Suc (length line)) buffer"
    using assms by (simp add: Cons_nth_drop_Suc)
  then show ?thesis by (simp add: list_update_append)
qed

lemma stored_line_clean:
  assumes "list_all (\<lambda>(n, c). 0 < n \<and> c \<noteq> LF) p"
    and "line = filter (\<lambda>c. c \<noteq> CR) (map snd p)"
  shows "CR \<notin> set line \<and> LF \<notin> set line"
  using assms by (auto simp: list_all_iff)

text \<open>
  C1, for a handle that delivers a line. Let the reads deliver the bytes of \<open>p\<close>, none of
  them LF, and let \<open>line\<close> be these bytes without the CR, fewer than \<open>length\<close> of them; the
  buffer has the capacity \<open>length\<close>. If the next read delivers LF, \<^verbatim>\<open>indigo_read_line\<close>
  stops there: it has stored \<open>line\<close> at the start of the buffer, byte for byte and in
  order, a NUL after it, it returns the number of bytes of \<open>line\<close>, and the LF and what
  follows it are not stored. If the next read fails instead, it returns -1 with
  \<^verbatim>\<open>errno = ECONNRESET\<close> and no NUL is stored. The stored bytes never hold a CR or LF.
\<close>

theorem indigo_read_line_line_or_failure:
  assumes "list_all (\<lambda>(n, c). 0 < n \<and> c \<noteq> LF) p"
    and "line = filter (\<lambda>c. c \<noteq> CR) (map snd p)"
    and "int (length line) < length'" and "length' \<le> INT_MAX"
    and "int (length buffer) = length'"
  shows "(0 < n \<longrightarrow>
            indigo_read_line (p @ (n, LF) # rest) buffer length'
              = Some (Inr \<lparr> rl_ret = int (length line), rl_errno = None,
                              rl_buffer = line @ NUL # drop (Suc (length line)) buffer,
                              rl_unread = rest \<rparr>))
       \<and> (n \<le> 0 \<longrightarrow>
            indigo_read_line (p @ (n, c) # rest) buffer length'
              = Some (Inr \<lparr> rl_ret = - 1, rl_errno = Some ECONNRESET,
                              rl_buffer = line @ drop (length line) buffer,
                              rl_unread = rest \<rparr>))
       \<and> CR \<notin> set line \<and> LF \<notin> set line"
proof -
  let ?b = "line @ drop (length line) buffer"
  have lt: "length line < length buffer"
    using assms(3,5) by simp
  have pre: "indigo_read_line (p @ rs) buffer length'
      = indigo_read_line_loop rs ?b length' (int (length line))" for rs
    unfolding indigo_read_line_def
    using indigo_read_line_loop_prefix [OF assms(1,2), of 0 length' buffer rs] assms(3,5)
    by simp
  have len_b: "length ?b = length buffer"
    using lt by simp
  have "indigo_read_line (p @ (n, LF) # rest) buffer length'
      = Some (Inr \<lparr> rl_ret = int (length line), rl_errno = None,
                      rl_buffer = line @ NUL # drop (Suc (length line)) buffer,
                      rl_unread = rest \<rparr>)" if "0 < n"
  proof -
    have "indigo_read_line_loop ((n, LF) # rest) ?b length' (int (length line))
        = Some (read_line_end rest ?b (int (length line)))"
      using that assms(3) by simp
    also have "read_line_end rest ?b (int (length line))
        = Inr \<lparr> rl_ret = int (length line), rl_errno = None,
                 rl_buffer = ?b[nat (int (length line)) := NUL], rl_unread = rest \<rparr>"
      using lt len_b assms(3,4) by (intro read_line_end_in_bounds) simp_all
    also have "?b[nat (int (length line)) := NUL] = line @ NUL # drop (Suc (length line)) buffer"
      using stored_line_terminated [OF lt] by simp
    finally show ?thesis by (simp add: pre)
  qed
  moreover have "indigo_read_line (p @ (n, c) # rest) buffer length'
      = Some (Inr \<lparr> rl_ret = - 1, rl_errno = Some ECONNRESET,
                      rl_buffer = ?b, rl_unread = rest \<rparr>)" if "n \<le> 0"
    using that assms(3) by (simp add: pre)
  ultimately show ?thesis
    using stored_line_clean [OF assms(1,2)] by simp
qed

theorem indigo_read_line_line_or_failure_witness:
  "indigo_read_line [(1, CHR ''a''), (1, CR), (1, CHR ''b''), (1, LF), (1, CHR ''z'')]
       ''xxxxxxxx'' 8
     = Some (Inr \<lparr> rl_ret = 2, rl_errno = None, 
          rl_buffer = [CHR ''a'', CHR ''b'', NUL, CHR ''x'', CHR ''x'', CHR ''x'', CHR ''x'', CHR ''x''],
          rl_unread = [(1, CHR ''z'')] \<rparr>)
   \<and> indigo_read_line [(1, CHR ''a''), (1, CR), (1, CHR ''b''), (0, CHR ''b''), (1, CHR ''z'')]
       ''xxxxxxxx'' 8
     = Some (Inr \<lparr> rl_ret = - 1, rl_errno = Some ECONNRESET, 
          rl_buffer = ''abxxxxxx'',
          rl_unread = [(1, CHR ''z'')] \<rparr>)"
  using indigo_read_line_line_or_failure
    [where p = "[(1, CHR ''a''), (1, CR), (1, CHR ''b'')]" and line = "''ab''"
       and length' = 8 and buffer = "''xxxxxxxx''" and n = 1 and rest = "[(1, CHR ''z'')]"]
   indigo_read_line_line_or_failure
    [where p = "[(1, CHR ''a''), (1, CR), (1, CHR ''b'')]" and line = "''ab''"
       and length' = 8 and buffer = "''xxxxxxxx''" and n = 0 and c = "CHR ''b''"
       and rest = "[(1, CHR ''z'')]"]
  by (simp add: INT_MAX_def)

text \<open>
  C1 as it is stated, for every handle, fails on a handle whose read fails before a LF
  has come: one byte has been stored, yet the value returned is -1, not 1, and the buffer
  holds no NUL.
\<close>

theorem indigo_read_line_failed_read_counterexample:
  "indigo_read_line [(1, CHR ''a''), (0, CHR ''a'')] ''xxxx'' 4
     = Some (Inr \<lparr> rl_ret = - 1, rl_errno = Some ECONNRESET,
                     rl_buffer = ''axxx'', rl_unread = [] \<rparr>)
   \<and> NUL \<notin> set ''axxx''"
  by (simp add: indigo_read_line_def store_def)

lemma indigo_read_line_loop_fill:
  assumes "list_all (\<lambda>(n, c). 0 < n \<and> c \<noteq> LF) p"
    and "length' - tot \<le> int (length (filter (\<lambda>c. c \<noteq> CR) (map snd p)))"
    and "0 \<le> tot" and "tot \<le> length'"
    and "int (length buffer) = length'"
  shows "indigo_read_line_loop (p @ rest) buffer length' tot
       = Some (Inl (Buffer_overflow length'))"
  using assms
proof (induction p arbitrary: buffer tot)
  case Nil
  then have tot: "tot = length'" by simp
  then have "read_line_end rs buffer tot = Inl (Buffer_overflow length')" for rs
    using Nil.prems(5) by (simp add: read_line_end_out_of_bounds)
  with tot show ?case by (cases rest) auto
next
  case (Cons x p)
  obtain n c where x: "x = (n, c)" by (cases x)
  from Cons.prems(1) x have n: "0 < n" and c: "c \<noteq> LF"
    and p: "list_all (\<lambda>(n, c). 0 < n \<and> c \<noteq> LF) p"
    by simp_all
  show ?case
  proof (cases "tot < length'")
    case False
    with Cons.prems(4) have tot: "tot = length'" by simp
    then have "read_line_end rs buffer tot = Inl (Buffer_overflow length')" for rs
      using Cons.prems(5) by (simp add: read_line_end_out_of_bounds)
    with tot x show ?thesis by simp
  next
    case run: True
    show ?thesis
    proof (cases "c = CR")
      case True
      have "indigo_read_line_loop ((x # p) @ rest) buffer length' tot
          = indigo_read_line_loop (p @ rest) buffer length' tot"
        using x n True run by simp
      also have "\<dots> = Some (Inl (Buffer_overflow length'))"
        using Cons.prems(2,3,4,5) True x by (intro Cons.IH [OF p]) simp_all
      finally show ?thesis .
    next
      case False
      let ?b = "buffer[nat tot := c]"
      have st: "store buffer tot c = Inr ?b"
        using Cons.prems(3,5) run by (simp add: store_in_bounds)
      have "indigo_read_line_loop ((x # p) @ rest) buffer length' tot
          = indigo_read_line_loop (p @ rest) ?b length' (tot + 1)"
        using x n False c run st by simp
      also have "\<dots> = Some (Inl (Buffer_overflow length'))"
        using Cons.prems(2,3,4,5) False x run by (intro Cons.IH [OF p]) simp_all
      finally show ?thesis .
    qed
  qed
qed

text \<open>
  C6. Let the reads deliver the bytes of \<open>p\<close>, none of them LF and at least \<open>length\<close> of
  them not CR, before anything else. Then \<^verbatim>\<open>indigo_read_line\<close> leaves its loop with
  \<open>total_bytes = length\<close> and stores the NUL at \<^verbatim>\<open>buffer[length]\<close>: in a buffer of capacity
  \<open>length\<close> this is one element past the end.
\<close>

theorem indigo_read_line_full_buffer_overflows:
  assumes "list_all (\<lambda>(n, c). 0 < n \<and> c \<noteq> LF) p"
    and "length' \<le> int (length (filter (\<lambda>c. c \<noteq> CR) (map snd p)))"
    and "0 \<le> length'"
    and "int (length buffer) = length'"
  shows "indigo_read_line (p @ rest) buffer length' = Some (Inl (Buffer_overflow length'))"
  unfolding indigo_read_line_def
  using assms by (intro indigo_read_line_loop_fill) simp_all

theorem indigo_read_line_full_buffer_overflows_witness:
  "indigo_read_line [(1, CHR ''a''), (1, CHR ''b''), (1, LF)] ''xx'' 2
     = Some (Inl (Buffer_overflow 2))"
  using indigo_read_line_full_buffer_overflows
    [of "[(1, CHR ''a''), (1, CHR ''b'')]" 2 "''xx''" "[(1, LF)]"]
  by simp

subsection \<open>Writing a buffer in full\<close>

lemma map_upt_Suc_shift:
  "map f [0..<Suc n] = f 0 # map (\<lambda>i. f (Suc i)) [0..<n]"
  by (simp add: map_upt_Suc del: upt_Suc)

lemma loop_requests_shape:
  fixes buffer remains w :: int
  shows "map (\<lambda>i. (buffer + sum_list (take i (w # ws)), remains - sum_list (take i (w # ws))))
     [0..<Suc n]
   = (buffer, remains)
     # map (\<lambda>i. (buffer + w + sum_list (take i ws), remains - w - sum_list (take i ws))) [0..<n]"
  by (simp add: map_upt_Suc_shift algebra_simps del: upt_Suc)

lemma indigo_write_loop_sound:
  assumes "indigo_write_loop ws buffer remains = Some e"
  defines "k \<equiv> length (wr_requests e)"
  shows "0 < k \<and> k \<le> length ws
    \<and> wr_requests e
        = map (\<lambda>i. (buffer + sum_list (take i ws), remains - sum_list (take i ws))) [0..<k]
    \<and> (\<forall>i<k - 1. 0 \<le> ws ! i \<and> ws ! i \<noteq> remains - sum_list (take i ws))
    \<and> (wr_ok e \<longleftrightarrow> list_all (\<lambda>w. 0 \<le> w) (take k ws) \<and> sum_list (take k ws) = remains)
    \<and> (wr_ok e \<or> ws ! (k - 1) < 0)"
  using assms(1) unfolding k_def
proof (induction ws arbitrary: buffer remains e)
  case Nil
  then show ?case by simp
next
  case (Cons w ws)
  show ?case
  proof (cases "w < 0 \<or> w = remains")
    case True
    with Cons.prems have "e = \<lparr> wr_ok = \<not> w < 0, wr_requests = [(buffer, remains)] \<rparr>"
      by (auto split: if_splits)
    with True show ?thesis by auto
  next
    case False
    with Cons.prems obtain e' where
      e': "indigo_write_loop ws (buffer + w) (remains - w) = Some e'"
      and e: "e = add_request (buffer, remains) e'"
      by auto
    let ?k = "length (wr_requests e')"
    note IH = Cons.IH [OF e']
    from e have len: "length (wr_requests e) = Suc ?k" and ok: "wr_ok e = wr_ok e'"
      and rq: "wr_requests e = (buffer, remains) # wr_requests e'"
      by (simp_all add: add_request_def)
    from IH have k: "0 < ?k" "?k \<le> length ws" by simp_all
    have shape: "wr_requests e
        = map (\<lambda>i. (buffer + sum_list (take i (w # ws)), remains - sum_list (take i (w # ws))))
            [0..<Suc ?k]"
      using IH rq by (simp only: loop_requests_shape)
    have partial: "\<forall>i<Suc ?k - 1. 0 \<le> (w # ws) ! i
        \<and> (w # ws) ! i \<noteq> remains - sum_list (take i (w # ws))"
    proof (intro allI impI)
      fix i assume i: "i < Suc ?k - 1"
      show "0 \<le> (w # ws) ! i \<and> (w # ws) ! i \<noteq> remains - sum_list (take i (w # ws))"
      proof (cases i)
        case 0
        with False show ?thesis by simp
      next
        case (Suc j)
        with i have "j < ?k - 1" by simp
        with IH have "0 \<le> ws ! j \<and> ws ! j \<noteq> remains - w - sum_list (take j ws)" by simp
        with Suc show ?thesis by (simp add: diff_diff_eq)
      qed
    qed
    have okiff: "wr_ok e \<longleftrightarrow> list_all (\<lambda>w. 0 \<le> w) (take (Suc ?k) (w # ws))
        \<and> sum_list (take (Suc ?k) (w # ws)) = remains"
      using IH ok False by auto
    have last: "wr_ok e \<or> (w # ws) ! (Suc ?k - 1) < 0"
      using IH ok k by (cases ?k) auto
    show ?thesis
      unfolding len using k shape partial okiff last by simp
  qed
qed

lemma indigo_write_loop_retries:
  assumes "\<forall>i<length pre. 0 \<le> pre ! i \<and> pre ! i \<noteq> remains - sum_list (take i pre)"
  shows "indigo_write_loop (pre @ rest) buffer remains
       = map_option (\<lambda>e. e\<lparr> wr_requests :=
             map (\<lambda>i. (buffer + sum_list (take i pre), remains - sum_list (take i pre)))
               [0..<length pre] @ wr_requests e \<rparr>)
           (indigo_write_loop rest (buffer + sum_list pre) (remains - sum_list pre))"
  using assms
proof (induction pre arbitrary: buffer remains)
  case Nil
  show ?case by (simp add: option.map_ident)
next
  case (Cons w pre)
  from Cons.prems have w: "0 \<le> w" "w \<noteq> remains" by auto
  have "\<forall>i<length pre. 0 \<le> pre ! i \<and> pre ! i \<noteq> remains - w - sum_list (take i pre)"
  proof (intro allI impI)
    fix i assume "i < length pre"
    with Cons.prems have "0 \<le> (w # pre) ! Suc i
        \<and> (w # pre) ! Suc i \<noteq> remains - sum_list (take (Suc i) (w # pre))"
      by (metis Suc_less_eq length_Cons)
    then show "0 \<le> pre ! i \<and> pre ! i \<noteq> remains - w - sum_list (take i pre)"
      by (simp add: diff_diff_eq)
  qed
  note IH = Cons.IH [OF this, of "buffer + w"]
  have "indigo_write_loop ((w # pre) @ rest) buffer remains
      = map_option (add_request (buffer, remains))
          (indigo_write_loop (pre @ rest) (buffer + w) (remains - w))"
    using w by simp
  also note IH
  finally show ?case
    by (simp add: option.map_comp comp_def add_request_def loop_requests_shape
        add.assoc diff_diff_eq del: upt_Suc)
qed

lemma suffix_requests_take:
  "k \<le> length ws \<Longrightarrow> suffix_requests (take k ws) length'
     = map (\<lambda>i. (0 + sum_list (take i ws), length' - sum_list (take i ws))) [0..<k]"
  by (simp add: suffix_requests_def min_def)

lemma short_writes_partial:
  assumes "short_writes pre length'"
  shows "\<forall>i<length pre. 0 \<le> pre ! i \<and> pre ! i \<noteq> length' - sum_list (take i pre)"
  using assms by (auto simp: short_writes_def)

lemma indigo_write_after_short_writes:
  assumes "short_writes pre length'"
  shows "indigo_write (pre @ rest) length'
       = map_option (\<lambda>e. e\<lparr> wr_requests := suffix_requests pre length' @ wr_requests e \<rparr>)
           (indigo_write_loop rest (sum_list pre) (length' - sum_list pre))"
  using indigo_write_loop_retries [OF short_writes_partial [OF assms], of rest 0]
  by (simp add: indigo_write_def suffix_requests_def)

lemma suffix_requests_snoc:
  "suffix_requests (pre @ [w]) length'
     = suffix_requests pre length' @ [(sum_list pre, length' - sum_list pre)]"
  by (simp add: suffix_requests_def)

text \<open>
  C2. Whenever \<^verbatim>\<open>indigo_write\<close> returns, it has made one request per result it has
  looked at, each for the untransferred suffix of the buffer; every write before the last
  was not negative and did not finish the buffer; it returns true exactly when the
  results are all non-negative and add up to \<open>length\<close>, and false only on a negative
  result. And it does return so: after short writes it has not returned yet, it returns
  false at the first negative result, and it returns true at the first write that
  transfers all that was left, without looking at the results that follow.
\<close>

theorem indigo_write_full_buffer:
  "(indigo_write ws length' = Some e \<longrightarrow>
      0 < length (wr_requests e) \<and> length (wr_requests e) \<le> length ws
      \<and> wr_requests e = suffix_requests (take (length (wr_requests e)) ws) length'
      \<and> (\<forall>i<length (wr_requests e) - 1.
            0 \<le> ws ! i \<and> ws ! i \<noteq> length' - sum_list (take i ws))
      \<and> (wr_ok e \<longleftrightarrow> list_all (\<lambda>w. 0 \<le> w) (take (length (wr_requests e)) ws)
                      \<and> sum_list (take (length (wr_requests e)) ws) = length')
      \<and> (wr_ok e \<or> ws ! (length (wr_requests e) - 1) < 0))
   \<and> (short_writes pre length' \<longrightarrow>
        indigo_write pre length' = None
      \<and> (w < 0 \<longrightarrow> indigo_write (pre @ w # rest) length'
             = Some \<lparr> wr_ok = False, wr_requests = suffix_requests (pre @ [w]) length' \<rparr>)
      \<and> (0 \<le> w \<and> sum_list pre + w = length' \<longrightarrow> indigo_write (pre @ w # rest) length'
             = Some \<lparr> wr_ok = True, wr_requests = suffix_requests (pre @ [w]) length' \<rparr>))"
proof (intro conjI impI)
  assume run: "indigo_write ws length' = Some e"
  then have loop: "indigo_write_loop ws 0 length' = Some e"
    by (simp add: indigo_write_def)
  note sound = indigo_write_loop_sound [OF loop]
  from sound show "0 < length (wr_requests e)" by simp
  from sound show k: "length (wr_requests e) \<le> length ws" by simp
  from sound show "wr_requests e = suffix_requests (take (length (wr_requests e)) ws) length'"
    by (simp only: suffix_requests_take [OF k])
  from sound show "\<forall>i<length (wr_requests e) - 1.
      0 \<le> ws ! i \<and> ws ! i \<noteq> length' - sum_list (take i ws)"
    by simp
  from sound show "wr_ok e \<longleftrightarrow> list_all (\<lambda>w. 0 \<le> w) (take (length (wr_requests e)) ws)
      \<and> sum_list (take (length (wr_requests e)) ws) = length'"
    by simp
  from sound show "wr_ok e \<or> ws ! (length (wr_requests e) - 1) < 0" by blast
next
  assume short: "short_writes pre length'"
  show "indigo_write pre length' = None"
    using indigo_write_after_short_writes [OF short, of "[]"] by simp
  show "indigo_write (pre @ w # rest) length'
      = Some \<lparr> wr_ok = False, wr_requests = suffix_requests (pre @ [w]) length' \<rparr>" if "w < 0"
    using that by (simp add: indigo_write_after_short_writes [OF short] suffix_requests_snoc)
  show "indigo_write (pre @ w # rest) length'
      = Some \<lparr> wr_ok = True, wr_requests = suffix_requests (pre @ [w]) length' \<rparr>"
    if "0 \<le> w \<and> sum_list pre + w = length'"
  proof -
    from that have "w = length' - sum_list pre" "\<not> w < 0" by auto
    then show ?thesis
      by (simp add: indigo_write_after_short_writes [OF short] suffix_requests_snoc)
  qed
qed

theorem indigo_write_full_buffer_witness:
  "indigo_write [3, 0, 2, 7] 5
     = Some \<lparr> wr_ok = True, wr_requests = [(0, 5), (3, 2), (3, 2)] \<rparr>
   \<and> indigo_write [3, - 1, 2] 5
     = Some \<lparr> wr_ok = False, wr_requests = [(0, 5), (3, 2)] \<rparr>
   \<and> indigo_write [3, 0] 5 = None"
  using indigo_write_full_buffer [where pre = "[3, 0]" and length' = 5 and w = 2 and rest = "[7]"]
    indigo_write_full_buffer [where pre = "[3]" and length' = 5 and w = "- 1" and rest = "[2]"]
  by (simp add: short_writes_def suffix_requests_def nth_Cons' indigo_write_def add_request_def)

subsection \<open>Formatted writing\<close>

lemma transferred_loop:
  assumes "indigo_write_loop ws buffer remains = Some e" and "0 \<le> buffer"
  shows "\<exists>n. transferred mem (wr_requests e) ws = take n (drop (nat buffer) mem)
           \<and> (wr_ok e \<longrightarrow> int n = remains)"
  using assms
proof (induction ws arbitrary: buffer remains e)
  case Nil
  then show ?case by simp
next
  case (Cons w ws)
  show ?case
  proof (cases "w < 0")
    case True
    with Cons.prems have "e = \<lparr> wr_ok = False, wr_requests = [(buffer, remains)] \<rparr>"
      by simp
    with True have "transferred mem (wr_requests e) (w # ws) = take 0 (drop (nat buffer) mem)
        \<and> (wr_ok e \<longrightarrow> int 0 = remains)"
      by simp
    then show ?thesis by blast
  next
    case nonneg: False
    show ?thesis
    proof (cases "w = remains")
      case True
      with nonneg Cons.prems have "e = \<lparr> wr_ok = True, wr_requests = [(buffer, remains)] \<rparr>"
        by simp
      with nonneg True
      have "transferred mem (wr_requests e) (w # ws) = take (nat w) (drop (nat buffer) mem)
          \<and> (wr_ok e \<longrightarrow> int (nat w) = remains)"
        by simp
      then show ?thesis by blast
    next
      case False
      with nonneg Cons.prems obtain e' where
        e': "indigo_write_loop ws (buffer + w) (remains - w) = Some e'"
        and e: "e = add_request (buffer, remains) e'"
        by auto
      from Cons.prems(2) nonneg have b: "0 \<le> buffer + w" by simp
      from Cons.IH [OF e' b] obtain n where
        n: "transferred mem (wr_requests e') ws = take n (drop (nat (buffer + w)) mem)"
        and ok: "wr_ok e' \<longrightarrow> int n = remains - w"
        by blast
      have "nat (buffer + w) = nat w + nat buffer"
        using Cons.prems(2) nonneg by simp
      then have "drop (nat (buffer + w)) mem = drop (nat w) (drop (nat buffer) mem)"
        by simp
      with n e nonneg have "transferred mem (wr_requests e) (w # ws)
          = take (nat w) (drop (nat buffer) mem) @ take n (drop (nat w) (drop (nat buffer) mem))"
        by (simp add: add_request_def)
      also have "\<dots> = take (nat w + n) (drop (nat buffer) mem)"
        by (simp add: take_add)
      finally have "transferred mem (wr_requests e) (w # ws)
          = take (nat w + n) (drop (nat buffer) mem)" .
      moreover have "wr_ok e \<longrightarrow> int (nat w + n) = remains"
        using ok e nonneg by (simp add: add_request_def)
      ultimately show ?thesis by blast
    qed
  qed
qed

lemma transferred_prefix:
  assumes "indigo_write ws length' = Some e"
  shows "\<exists>n. transferred mem (wr_requests e) ws = take n mem \<and> (wr_ok e \<longrightarrow> int n = length')"
  using transferred_loop [of ws 0 length' e mem] assms by (simp add: indigo_write_def)

lemma pf_fields:
  "pf_buffer (indigo_printf ws out) = take 1023 out @ [NUL]"
  "pf_length (indigo_printf ws out)
     = (if int (length out) \<le> INT_MAX then int (length out) else - 1)"
  "pf_write (indigo_printf ws out) = indigo_write ws (pf_length (indigo_printf ws out))"
  by (simp_all add: indigo_printf_def vsnprintf_def)

lemma sum_list_take_nonneg:
  assumes "\<forall>i<k. 0 \<le> (ws :: int list) ! i" and "j \<le> k" and "k \<le> length ws"
  shows "0 \<le> sum_list (take j ws)"
proof (rule sum_list_nonneg)
  fix x assume "x \<in> set (take j ws)"
  then obtain i where "i < j" "i < length ws" "x = ws ! i"
    by (auto simp: in_set_conv_nth)
  with assms show "0 \<le> x" by simp
qed

lemma requests_outside:
  assumes "indigo_write ws length' = Some e"
    and "length' < 0 \<or> int n < length'"
  shows "wr_requests e \<noteq> [] \<and> list_all (request_outside n) (wr_requests e)"
proof -
  define k where "k = length (wr_requests e)"
  from assms(1) have loop: "indigo_write_loop ws 0 length' = Some e"
    by (simp add: indigo_write_def)
  from indigo_write_loop_sound [OF loop]
  have k: "0 < k" "k \<le> length ws"
    and shape: "wr_requests e
      = map (\<lambda>i. (0 + sum_list (take i ws), length' - sum_list (take i ws))) [0..<k]"
    and part: "\<forall>i<k - 1. 0 \<le> ws ! i \<and> ws ! i \<noteq> length' - sum_list (take i ws)"
    unfolding k_def by blast+
  have "request_outside n rq" if "rq \<in> set (wr_requests e)" for rq
  proof -
    from that obtain i where i: "i < k"
      and rqi: "rq = (sum_list (take i ws), length' - sum_list (take i ws))"
      unfolding shape by auto
    have "0 \<le> sum_list (take i ws)"
      using part i k by (intro sum_list_take_nonneg [of "k - 1"]) auto
    with assms(2) rqi show ?thesis
      by (auto simp: request_outside_def)
  qed
  moreover from k have "wr_requests e \<noteq> []"
    unfolding k_def by auto
  ultimately show ?thesis by (simp add: list_all_iff)
qed

text \<open>
  C8, with the bound where it lies. \<^verbatim>\<open>indigo_printf\<close> holds the first 1023 characters of
  the output and a NUL in its buffer and passes the length of the output in full to
  \<^verbatim>\<open>indigo_write\<close>. For an output of 1025 characters or more every request of
  \<^verbatim>\<open>indigo_write\<close> reaches past the end of the 1024 bytes of the buffer. For an output of
  1024 characters or more whose character 1023 is not NUL, the bytes transferred are never
  the output, whatever the writes return and whatever lies beyond the buffer: the NUL
  stands in its place. An output of up to 1023 characters is transferred exactly whenever
  \<^verbatim>\<open>indigo_write\<close> returns true.
\<close>

theorem indigo_printf_long_output:
  "pf_buffer (indigo_printf ws out) = take 1023 out @ [NUL]
   \<and> pf_write (indigo_printf ws out) = indigo_write ws (pf_length (indigo_printf ws out))
   \<and> (int (length out) \<le> INT_MAX \<longrightarrow> pf_length (indigo_printf ws out) = int (length out))
   \<and> (1025 \<le> length out \<and> pf_write (indigo_printf ws out) = Some e \<longrightarrow>
         wr_requests e \<noteq> [] \<and> list_all (request_outside 1024) (wr_requests e))
   \<and> (1024 \<le> length out \<and> out ! 1023 \<noteq> NUL \<and> pf_write (indigo_printf ws out) = Some e \<longrightarrow>
         transferred (pf_buffer (indigo_printf ws out) @ beyond) (wr_requests e) ws \<noteq> out)
   \<and> (length out \<le> 1023 \<and> pf_write (indigo_printf ws out) = Some e \<and> wr_ok e \<longrightarrow>
         transferred (pf_buffer (indigo_printf ws out) @ beyond) (wr_requests e) ws = out)"
proof (intro conjI impI)
  show "pf_buffer (indigo_printf ws out) = take 1023 out @ [NUL]"
    by (rule pf_fields)
  show "pf_write (indigo_printf ws out) = indigo_write ws (pf_length (indigo_printf ws out))"
    by (rule pf_fields)
  show "pf_length (indigo_printf ws out) = int (length out)" if "int (length out) \<le> INT_MAX"
    using that by (simp add: pf_fields)
next
  assume h: "1025 \<le> length out \<and> pf_write (indigo_printf ws out) = Some e"
  let ?L = "pf_length (indigo_printf ws out)"
  from h have run: "indigo_write ws ?L = Some e" by (simp add: pf_fields(3))
  from h have "?L < 0 \<or> int 1024 < ?L" by (simp add: pf_fields(2))
  from requests_outside [OF run this]
  show "wr_requests e \<noteq> []" "list_all (request_outside 1024) (wr_requests e)"
    by simp_all
next
  assume h: "1024 \<le> length out \<and> out ! 1023 \<noteq> NUL \<and> pf_write (indigo_printf ws out) = Some e"
  let ?mem = "pf_buffer (indigo_printf ws out) @ beyond"
  from h have run: "indigo_write ws (pf_length (indigo_printf ws out)) = Some e"
    by (simp add: pf_fields(3))
  from transferred_prefix [OF run, of ?mem] obtain n where
    n: "transferred ?mem (wr_requests e) ws = take n ?mem" by blast
  have nul: "?mem ! 1023 = NUL"
    using h by (simp add: pf_fields(1) nth_append)
  show "transferred ?mem (wr_requests e) ws \<noteq> out"
  proof
    assume eq: "transferred ?mem (wr_requests e) ws = out"
    with n have t: "take n ?mem = out" by simp
    then have "length (take n ?mem) = length out" by simp
    moreover have "length (take n ?mem) \<le> n" by simp
    ultimately have "1023 < n" using h by linarith
    then have "take n ?mem ! 1023 = ?mem ! 1023" by (simp only: nth_take)
    with t nul h show False by simp
  qed
next
  assume h: "length out \<le> 1023 \<and> pf_write (indigo_printf ws out) = Some e \<and> wr_ok e"
  let ?mem = "pf_buffer (indigo_printf ws out) @ beyond"
  from h have len: "pf_length (indigo_printf ws out) = int (length out)"
    by (simp add: pf_fields(2) INT_MAX_def)
  from h have run: "indigo_write ws (pf_length (indigo_printf ws out)) = Some e"
    by (simp add: pf_fields(3))
  from transferred_prefix [OF run, of ?mem] h len obtain n where
    n: "transferred ?mem (wr_requests e) ws = take n ?mem" and "int n = int (length out)"
    by auto
  then have "n = length out" by simp
  with n h show "transferred ?mem (wr_requests e) ws = out"
    by (simp add: pf_fields(1))
qed

theorem indigo_printf_long_output_witness:
  "pf_write (indigo_printf [1025] (replicate 1025 CHR ''a''))
     = Some \<lparr> wr_ok = True, wr_requests = [(0, 1025)] \<rparr>
   \<and> list_all (request_outside 1024) [(0, 1025)]
   \<and> transferred (pf_buffer (indigo_printf [1025] (replicate 1025 CHR ''a'')) @ ''zz'')
        [(0, 1025)] [1025] \<noteq> replicate 1025 CHR ''a''
   \<and> pf_write (indigo_printf [2, 1] ''abc'')
     = Some \<lparr> wr_ok = True, wr_requests = [(0, 3), (2, 1)] \<rparr>
   \<and> transferred (pf_buffer (indigo_printf [2, 1] ''abc'') @ ''zz'') [(0, 3), (2, 1)] [2, 1]
     = ''abc''"
proof -
  let ?long = "replicate 1025 CHR ''a''"
  let ?e = "\<lparr> wr_ok = True, wr_requests = [(0, 1025)] \<rparr>"
  let ?f = "\<lparr> wr_ok = True, wr_requests = [(0, 3), (2, 1)] \<rparr>"
  have run: "pf_write (indigo_printf [1025] ?long) = Some ?e"
    by (simp add: indigo_printf_def vsnprintf_def INT_MAX_def indigo_write_def)
  have run': "pf_write (indigo_printf [2, 1] ''abc'') = Some ?f"
    by (simp add: indigo_printf_def vsnprintf_def INT_MAX_def indigo_write_def add_request_def)
  have nonnul: "?long ! 1023 \<noteq> NUL" by simp
  note long = indigo_printf_long_output
    [where ws = "[1025]" and out = ?long and e = ?e and beyond = "''zz''"]
  note short = indigo_printf_long_output
    [where ws = "[2, 1]" and out = "''abc''" and e = ?f and beyond = "''zz''"]
  have sizes: "1025 \<le> length ?long" "1024 \<le> length ?long" "length ''abc'' \<le> 1023"
    by simp_all
  from long have "1025 \<le> length ?long \<and> pf_write (indigo_printf [1025] ?long) = Some ?e
      \<longrightarrow> wr_requests ?e \<noteq> [] \<and> list_all (request_outside 1024) (wr_requests ?e)"
    by (elim conjE)
  with sizes(1) run have "list_all (request_outside 1024) (wr_requests ?e)" by blast
  moreover from long have "1024 \<le> length ?long \<and> ?long ! 1023 \<noteq> NUL
        \<and> pf_write (indigo_printf [1025] ?long) = Some ?e
      \<longrightarrow> transferred (pf_buffer (indigo_printf [1025] ?long) @ ''zz'') (wr_requests ?e) [1025]
            \<noteq> ?long"
    by (elim conjE)
  with sizes(2) run nonnul
  have "transferred (pf_buffer (indigo_printf [1025] ?long) @ ''zz'') (wr_requests ?e) [1025]
      \<noteq> ?long"
    by blast
  moreover from short have "length ''abc'' \<le> 1023
        \<and> pf_write (indigo_printf [2, 1] ''abc'') = Some ?f \<and> wr_ok ?f
      \<longrightarrow> transferred (pf_buffer (indigo_printf [2, 1] ''abc'') @ ''zz'') (wr_requests ?f) [2, 1]
            = ''abc''"
    by (elim conjE)
  with sizes(3) run'
  have "transferred (pf_buffer (indigo_printf [2, 1] ''abc'') @ ''zz'') (wr_requests ?f) [2, 1]
      = ''abc''"
    by simp
  ultimately show ?thesis using run run' by simp
qed

text \<open>
  C8 as it is stated, from 1024 characters on, fails at exactly 1024 characters: the
  request is for the 1024 bytes of the buffer, the 1023 characters and the NUL, and
  nothing is read past its end.
\<close>

theorem indigo_printf_1024_counterexample:
  "pf_length (indigo_printf [1024] (replicate 1024 CHR ''a'')) = 1024
   \<and> length (pf_buffer (indigo_printf [1024] (replicate 1024 CHR ''a''))) = 1024
   \<and> pf_write (indigo_printf [1024] (replicate 1024 CHR ''a''))
       = Some \<lparr> wr_ok = True, wr_requests = [(0, 1024)] \<rparr>
   \<and> \<not> request_outside 1024 (0, 1024)"
  by (simp add: indigo_printf_def vsnprintf_def INT_MAX_def indigo_write_def
      request_outside_def)

end
